theory Spec2Isabelle
  imports Complex_Main "HOL-Library.AList"
begin

section \<open>JavaScript values used by the plugin\<close>

text \<open>
  A JavaScript number is modelled by \<open>NaN\<close> or an exact rational. The code only adds one,
  takes remainders by an array length, multiplies a random draw by an array length and
  passes opacities and intervals through, so the rounding of IEEE doubles, the
  infinities and the negative zero play no role and are left out.
\<close>

datatype number = NaN | Num rat

fun js_add :: "number \<Rightarrow> number \<Rightarrow> number" where
  "js_add (Num a) (Num b) = Num (a + b)"
| "js_add _ _ = NaN"

fun js_mul :: "number \<Rightarrow> number \<Rightarrow> number" where
  "js_mul (Num a) (Num b) = Num (a * b)"
| "js_mul _ _ = NaN"

definition truncate_rat :: "rat \<Rightarrow> int" where
  "truncate_rat q = (if 0 \<le> q then \<lfloor>q\<rfloor> else \<lceil>q\<rceil>)"

text \<open>The operator \<^verbatim>\<open>%\<close>: the remainder has the sign of the dividend, and a zero divisor gives \<open>NaN\<close>.\<close>

fun js_mod :: "number \<Rightarrow> number \<Rightarrow> number" where
  "js_mod (Num a) (Num b) = (if b = 0 then NaN else Num (a - b * of_int (truncate_rat (a / b))))"
| "js_mod _ _ = NaN"

fun Math_floor :: "number \<Rightarrow> number" where
  "Math_floor (Num a) = Num (of_int \<lfloor>a\<rfloor>)"
| "Math_floor NaN = NaN"

text \<open>\<^verbatim>\<open>xs.length\<close> as a number.\<close>

definition array_length :: "'a list \<Rightarrow> number" where
  "array_length xs = Num (of_nat (length xs))"

text \<open>\<^verbatim>\<open>xs[n]\<close>: \<open>None\<close> is \<^verbatim>\<open>undefined\<close>, the value of every index that is not an integer
  within the array.\<close>

definition array_get :: "'a list \<Rightarrow> number \<Rightarrow> 'a option" where
  "array_get xs n =
     (case n of
        NaN \<Rightarrow> None
      | Num q \<Rightarrow>
          if q = of_int \<lfloor>q\<rfloor> \<and> 0 \<le> q \<and> nat \<lfloor>q\<rfloor> < length xs
          then Some (xs ! nat \<lfloor>q\<rfloor>) else None)"

text \<open>A template literal \<^verbatim>\<open>`${x}`\<close> over a string that may be \<^verbatim>\<open>undefined\<close>.\<close>

definition template :: "string option \<Rightarrow> string" where
  "template x = (case x of None \<Rightarrow> ''undefined'' | Some s \<Rightarrow> s)"

text \<open>\<^verbatim>\<open>`url("${x}")`\<close>; the character 0x22 is the double quote.\<close>

definition url_template :: "string option \<Rightarrow> string" where
  "url_template x = ''url('' @ [CHR 0x22] @ template x @ [CHR 0x22] @ '')''"

section \<open>The document\<close>

text \<open>
  A style value is a literal string, or the template
  \<^verbatim>\<open>`rgba(255, 255, 255, ${opacity})`\<close> kept with its number unrendered.
\<close>

datatype cssval = Lit string | WhiteAlpha number

type_synonym css = "(string \<times> cssval) list"

text \<open>
  An element carries an identifier (its object identity: a node list holds identifiers),
  its class list, its inline style and its children in document order. Identifiers are
  unique in a document the browser builds.
\<close>

datatype element =
  Element (eid: nat) (classList: "string list") (style: css) (childNodes: "element list")

text \<open>All elements of a tree in document order, the root first.\<close>

primrec elements :: "element \<Rightarrow> element list" where
  "elements (Element i cs st ch) = Element i cs st ch # concat (map elements ch)"

definition ids :: "element \<Rightarrow> nat list" where
  "ids t = map eid (elements t)"

definition wellformed :: "element \<Rightarrow> bool" where
  "wellformed t = distinct (ids t)"

definition hasClass :: "string \<Rightarrow> element \<Rightarrow> bool" where
  "hasClass c e = (c \<in> set (classList e))"

text \<open>\<^verbatim>\<open>document.querySelectorAll('.c')\<close>: a static list, in document order.\<close>

definition querySelectorAll :: "string \<Rightarrow> element \<Rightarrow> nat list" where
  "querySelectorAll c doc = map eid (filter (hasClass c) (elements doc))"

text \<open>\<^verbatim>\<open>element.querySelector('.c')\<close>: the first proper descendant with the class.\<close>

definition querySelector :: "string \<Rightarrow> element \<Rightarrow> element option" where
  "querySelector c e = find (hasClass c) (concat (map elements (childNodes e)))"

text \<open>
  A mutation of the element object \<open>i\<close>: \<open>modify i f doc\<close> replaces the element carrying
  the identifier \<open>i\<close> by its image under \<open>f\<close>, wherever it stands in the tree. (The
  children are traversed first; with unique identifiers nothing below the element changes.)
  An identifier that is not in the tree, as that of a node removed before its turn in a
  node list, leaves the tree as it is.
\<close>

fun modify :: "nat \<Rightarrow> (element \<Rightarrow> element) \<Rightarrow> element \<Rightarrow> element" where
  "modify i f (Element j cs st ch) =
     (let e = Element j cs st (map (modify i f) ch) in if i = j then f e else e)"

text \<open>The identifier of the next element \<^verbatim>\<open>document.createElement\<close> makes.\<close>

definition fresh :: "element \<Rightarrow> nat" where
  "fresh doc = Suc (fold max (ids doc) 0)"

definition withStyle :: "(css \<Rightarrow> css) \<Rightarrow> element \<Rightarrow> element" where
  "withStyle g e = Element (eid e) (classList e) (g (style e)) (childNodes e)"

text \<open>A run of assignments \<^verbatim>\<open>element.style.p = v\<close>, in order.\<close>

definition assign :: "css \<Rightarrow> css \<Rightarrow> css" where
  "assign kvs st = fold (\<lambda>(p, v). AList.update p v) kvs st"

definition appendChild :: "element \<Rightarrow> element \<Rightarrow> element" where
  "appendChild e c = Element (eid e) (classList e) (style e) (childNodes e @ [c])"

text \<open>\<^verbatim>\<open>el.classList.add(c)\<close> and \<^verbatim>\<open>el.classList.remove(c)\<close>.\<close>

definition classList_add :: "string \<Rightarrow> element \<Rightarrow> element" where
  "classList_add c e =
     Element (eid e) (if c \<in> set (classList e) then classList e else classList e @ [c])
       (style e) (childNodes e)"

definition classList_remove :: "string \<Rightarrow> element \<Rightarrow> element" where
  "classList_remove c e =
     Element (eid e) (filter (\<lambda>x. x \<noteq> c) (classList e)) (style e) (childNodes e)"

text \<open>\<^verbatim>\<open>node.remove()\<close> for the node \<open>k\<close> below \<open>e\<close>.\<close>

fun removeNode :: "nat \<Rightarrow> element \<Rightarrow> element" where
  "removeNode k (Element j cs st ch) =
     Element j cs st (map (removeNode k) (filter (\<lambda>c. eid c \<noteq> k) ch))"

text \<open>
  The body every variant runs on a matched element: set the inline style, and append an
  overlay unless \<^verbatim>\<open>element.querySelector\<close> finds one by its marker class \<open>cls\<close>. The
  overlay is \<open>mk n\<close> for the fresh identifier \<open>n\<close>.
\<close>

definition styleBody :: "(css \<Rightarrow> css) \<Rightarrow> string \<Rightarrow> element \<Rightarrow> element \<Rightarrow> element" where
  "styleBody g cls overlay element =
     (let element = withStyle g element in
      if querySelector cls element = None then appendChild element overlay else element)"

definition styleElement ::
  "(css \<Rightarrow> css) \<Rightarrow> string \<Rightarrow> (nat \<Rightarrow> element) \<Rightarrow> nat \<Rightarrow> element \<Rightarrow> element" where
  "styleElement g cls mk i doc = modify i (styleBody g cls (mk (fresh doc))) doc"

text \<open>\<^verbatim>\<open>elements.forEach(body)\<close> over a static node list.\<close>

definition forEach :: "'a list \<Rightarrow> ('a \<Rightarrow> element \<Rightarrow> element) \<Rightarrow> element \<Rightarrow> element" where
  "forEach xs body doc = fold body xs doc"

section \<open>Settings\<close>

record opacitySettings =
  sidebar :: number
  viewContent :: number
  tabHeaderContainer :: number
  tabHeader :: number
  workspaceLeaf :: number
  kanbanItem :: number

text \<open>
  The settings of all variants in one record: the first two variants have no opacities,
  the random variants no interval and no \<open>sidebar\<close>; a variant ignores the fields it
  does not declare.
\<close>

record settings =
  interval :: number
  backgrounds :: "string list"
  opacitySettings :: opacitySettings

section \<open>The first variant (src/main.ts)\<close>

text \<open>The overlay of the first two variants, with its fixed colour.\<close>

definition overlay_fixed :: "nat \<Rightarrow> element" where
  "overlay_fixed n =
     Element n [''background-overlay'']
       [(''position'', Lit ''absolute''), (''top'', Lit ''0''), (''left'', Lit ''0''),
        (''width'', Lit ''100%''), (''height'', Lit ''100%''),
        (''backgroundColor'', Lit ''rgba(255, 255, 255, 0.5)''),
        (''zIndex'', Lit ''-1''), (''pointerEvents'', Lit ''none'')]
       []"

definition restyle_plain :: "string option \<Rightarrow> css \<Rightarrow> css" where
  "restyle_plain bg =
     assign
       [(''backgroundImage'', Lit (template bg)), (''backgroundSize'', Lit ''cover''),
        (''backgroundPosition'', Lit ''center''), (''position'', Lit ''relative''),
        (''zIndex'', Lit ''2'')]"

text \<open>
  The callback of \<^verbatim>\<open>setInterval\<close> in \<^verbatim>\<open>startBackgroundChange\<close>. The closure variable
  \<^verbatim>\<open>index\<close> is the first component of the state. Inside \<^verbatim>\<open>forEach\<close> the callback's
  second parameter is also called \<^verbatim>\<open>index\<close> and hides it: an element takes the
  background at its own position in the node list. The first line of the callback logs
  the background at the cycle index and changes nothing.
\<close>

definition tick_v1 :: "settings \<Rightarrow> number \<times> element \<Rightarrow> number \<times> element" where
  "tick_v1 s = (\<lambda>(index, doc).
     let titleBarTexts = querySelectorAll ''view-content'' doc;
         doc = forEach (enumerate 0 titleBarTexts)
                 (\<lambda>(index, titleBarText).
                    styleElement (restyle_plain (array_get (backgrounds s) (Num (of_nat index))))
                      ''background-overlay'' overlay_fixed titleBarText)
                 doc;
         index = js_mod (js_add index (Num 1)) (array_length (backgrounds s))
     in (index, doc))"

section \<open>The second variant (src/unnamed/part_000)\<close>

definition applyBackgroundAndOverlay_v2 :: "nat list \<Rightarrow> string option \<Rightarrow> element \<Rightarrow> element" where
  "applyBackgroundAndOverlay_v2 elems backgroundImageUrl =
     forEach elems
       (styleElement (restyle_plain backgroundImageUrl) ''background-overlay'' overlay_fixed)"

definition updateBackgrounds_v2 :: "settings \<Rightarrow> number \<Rightarrow> element \<Rightarrow> element" where
  "updateBackgrounds_v2 s currentBackgroundIndex doc =
     (let backgroundImageUrl = array_get (backgrounds s) currentBackgroundIndex;
          titleBarTexts = querySelectorAll ''view-content'' doc;
          doc = applyBackgroundAndOverlay_v2 titleBarTexts backgroundImageUrl doc;
          headerContainers = querySelectorAll ''workspace-tab-header-container'' doc;
          doc = applyBackgroundAndOverlay_v2 headerContainers backgroundImageUrl doc
      in doc)"

text \<open>The callback of \<^verbatim>\<open>setInterval\<close>: advance the index, then restyle.\<close>

definition tick_v2 :: "settings \<Rightarrow> number \<times> element \<Rightarrow> number \<times> element" where
  "tick_v2 s = (\<lambda>(currentBackgroundIndex, doc).
     let currentBackgroundIndex =
           js_mod (js_add currentBackgroundIndex (Num 1)) (array_length (backgrounds s))
     in (currentBackgroundIndex, updateBackgrounds_v2 s currentBackgroundIndex doc))"

section \<open>The plugin instance and its host\<close>

text \<open>
  One record holds the fields of the plugin object and what the plugin has put into its
  host: the document, the number of mutation observers it has connected to
  \<^verbatim>\<open>document.body\<close>, its active interval timers (identifier and period, as given to
  \<^verbatim>\<open>window.setInterval\<close>), the identifier the next timer gets, the last settings
  handed to \<^verbatim>\<open>saveData\<close> and the lines written with \<^verbatim>\<open>console.warn\<close>. The
  field \<open>intervalId\<close> is \<open>None\<close> while it is \<^verbatim>\<open>undefined\<close>.
\<close>

record state =
  settings :: settings
  intervalId :: "nat option"
  currentBackgroundIndex :: number
  document :: element
  observers :: nat
  timers :: "(nat \<times> number) list"
  nextTimerId :: nat
  saved :: "settings option"
  console :: "string list"

definition setInterval :: "number \<Rightarrow> state \<Rightarrow> nat \<times> state" where
  "setInterval period st =
     (nextTimerId st,
      st\<lparr>timers := timers st @ [(nextTimerId st, period)], nextTimerId := Suc (nextTimerId st)\<rparr>)"

definition clearInterval :: "nat option \<Rightarrow> state \<Rightarrow> state" where
  "clearInterval h st = st\<lparr>timers := filter (\<lambda>(i, period). Some i \<noteq> h) (timers st)\<rparr>"

definition saveSettings :: "state \<Rightarrow> state" where
  "saveSettings st = st\<lparr>saved := Some (settings st)\<rparr>"

section \<open>Strings: \<^verbatim>\<open>parseInt\<close>, \<^verbatim>\<open>split\<close>, \<^verbatim>\<open>trim\<close>\<close>

text \<open>
  The language's own functions, after ECMAScript, over strings of ASCII characters (the
  white space beyond ASCII is left out).
\<close>

definition isWhiteSpace :: "char \<Rightarrow> bool" where
  "isWhiteSpace c = (c \<in> set [CHR '' '', CHR 0x09, CHR 0x0A, CHR 0x0B, CHR 0x0C, CHR 0x0D])"

definition digitValue :: "char \<Rightarrow> nat option" where
  "digitValue c =
     (let n = (of_char c :: nat) in
      if 48 \<le> n \<and> n \<le> 57 then Some (n - 48)
      else if 97 \<le> n \<and> n \<le> 122 then Some (n - 87)
      else if 65 \<le> n \<and> n \<le> 90 then Some (n - 55)
      else None)"

definition isRadixDigit :: "nat \<Rightarrow> char \<Rightarrow> bool" where
  "isRadixDigit r c = (case digitValue c of None \<Rightarrow> False | Some d \<Rightarrow> d < r)"

definition digitsValue :: "nat \<Rightarrow> string \<Rightarrow> nat" where
  "digitsValue r z = foldl (\<lambda>a c. a * r + the (digitValue c)) 0 z"

text \<open>
  \<^verbatim>\<open>parseInt(s)\<close> with no radix: skip white space, read a sign, read \<^verbatim>\<open>0x\<close> as
  radix 16, take the longest run of digits; no digit gives \<open>NaN\<close>.
\<close>

definition parseInt :: "string \<Rightarrow> number" where
  "parseInt s =
     (let s1 = dropWhile isWhiteSpace s;
          sign = (if take 1 s1 = ''-'' then - 1 else (1 :: int));
          s2 = (if take 1 s1 = ''-'' \<or> take 1 s1 = ''+'' then drop 1 s1 else s1);
          r = (if take 2 s2 = ''0x'' \<or> take 2 s2 = ''0X'' then 16 else 10);
          s3 = (if r = 16 then drop 2 s2 else s2);
          z = takeWhile (isRadixDigit r) s3
      in if z = [] then NaN else Num (of_int (sign * int (digitsValue r z))))"

text \<open>\<^verbatim>\<open>s.split(',')\<close>: never empty, the empty string gives one empty field.\<close>

fun split :: "char \<Rightarrow> string \<Rightarrow> string list" where
  "split c [] = [[]]"
| "split c (x # xs) =
     (if x = c then [] # split c xs
      else (case split c xs of [] \<Rightarrow> [[x]] | y # ys \<Rightarrow> (x # y) # ys))"

definition trim :: "string \<Rightarrow> string" where
  "trim s = rev (dropWhile isWhiteSpace (rev (dropWhile isWhiteSpace s)))"

section \<open>The five-selector variants with opacities (src/unnamed/part_001)\<close>

definition overlay_alpha :: "number \<Rightarrow> nat \<Rightarrow> element" where
  "overlay_alpha opacity n =
     Element n [''background-overlay'']
       [(''position'', Lit ''absolute''), (''top'', Lit ''0''), (''left'', Lit ''0''),
        (''width'', Lit ''100%''), (''height'', Lit ''100%''),
        (''backgroundColor'', WhiteAlpha opacity),
        (''zIndex'', Lit ''-1''), (''pointerEvents'', Lit ''none'')]
       []"

definition restyle_framed :: "string option \<Rightarrow> css \<Rightarrow> css" where
  "restyle_framed bg =
     assign
       [(''backgroundImage'', Lit (url_template bg)), (''backgroundSize'', Lit ''cover''),
        (''backgroundPosition'', Lit ''center''), (''position'', Lit ''relative''),
        (''zIndex'', Lit ''2''),
        (''boxShadow'', Lit ''10px 10px 5px 0px rgba(0, 0, 0, 0.75)''),
        (''border'', Lit ''1px orange solid'')]"

text \<open>
  \<^verbatim>\<open>getRandomBackground\<close>: the argument \<open>random\<close> is the value \<^verbatim>\<open>Math.random()\<close>
  returns, a number from 0 up to but not including 1.
\<close>

definition getRandomBackground :: "settings \<Rightarrow> rat \<Rightarrow> string option" where
  "getRandomBackground s random =
     (let backgrounds = backgrounds s;
          randomIndex = Math_floor (js_mul (Num random) (array_length backgrounds))
      in array_get backgrounds randomIndex)"

subsection \<open>The variant with the observer and the teardown (lines 1 to 198)\<close>

definition overlay_v3 :: "number \<Rightarrow> nat \<Rightarrow> element" where
  "overlay_v3 opacity n =
     Element n [''dynamic-backgrounds-overlay''] [(''backgroundColor'', WhiteAlpha opacity)] []"

definition applyBackgroundAndOverlay_v3 ::
  "settings \<Rightarrow> rat \<Rightarrow> nat list \<Rightarrow> number \<Rightarrow> element \<Rightarrow> element" where
  "applyBackgroundAndOverlay_v3 s random elems opacity =
     (let backgroundImageUrl = getRandomBackground s random in
      forEach elems
        (styleElement (assign [(''backgroundImage'', Lit (url_template backgroundImageUrl))])
           ''dynamic-backgrounds-overlay'' (overlay_v3 opacity)))"

definition selectors_v3 :: "settings \<Rightarrow> (string \<times> number) list" where
  "selectors_v3 s =
     [(''view-content'', viewContent (opacitySettings s)),
      (''workspace-tab-header-container'', tabHeaderContainer (opacitySettings s)),
      (''workspace-tab-header'', tabHeader (opacitySettings s)),
      (''view-header'', tabHeader (opacitySettings s)),
      (''workspace-leaf'', workspaceLeaf (opacitySettings s))]"

text \<open>
  \<^verbatim>\<open>updateBackgrounds\<close>. Each call of \<^verbatim>\<open>applyBackgroundAndOverlay\<close> draws one random
  number; \<open>rnd k\<close> is the draw of the selector at position \<open>k\<close>. The callback of
  \<^verbatim>\<open>selectors.forEach\<close> marks the matched elements, then styles them.
\<close>

definition step_v3 :: "settings \<Rightarrow> (nat \<Rightarrow> rat) \<Rightarrow> nat \<times> string \<times> number \<Rightarrow> element \<Rightarrow> element" where
  "step_v3 s rnd = (\<lambda>(k, selector, opacity) doc.
          let elems = querySelectorAll selector doc;
              doc = forEach elems (\<lambda>el. modify el (classList_add ''dynamic-backgrounds'')) doc
          in applyBackgroundAndOverlay_v3 s (rnd k) elems opacity doc)"

definition updateBackgrounds_v3 :: "settings \<Rightarrow> (nat \<Rightarrow> rat) \<Rightarrow> element \<Rightarrow> element" where
  "updateBackgrounds_v3 s rnd = forEach (enumerate 0 (selectors_v3 s)) (step_v3 s rnd)"

text \<open>
  \<^verbatim>\<open>removeBackgrounds\<close>. Its callback clears the background image (the assignment of
  the empty string), removes the marker class and removes the first overlay that
  \<^verbatim>\<open>el.querySelector\<close> finds below the element, if there is one.
\<close>

definition stripElement :: "element \<Rightarrow> element" where
  "stripElement e =
     (let e = withStyle (AList.update ''backgroundImage'' (Lit [])) e;
          e = classList_remove ''dynamic-backgrounds'' e
      in case querySelector ''dynamic-backgrounds-overlay'' e of
           None \<Rightarrow> e
         | Some overlay \<Rightarrow> removeNode (eid overlay) e)"

definition removeBackgrounds :: "element \<Rightarrow> element" where
  "removeBackgrounds doc =
     forEach (querySelectorAll ''dynamic-backgrounds'' doc) (\<lambda>el. modify el stripElement) doc"

text \<open>\<^verbatim>\<open>onload\<close> up to the registration of the event handler, and \<^verbatim>\<open>onunload\<close>.\<close>

definition onload_v3 :: "settings \<Rightarrow> (nat \<Rightarrow> rat) \<Rightarrow> state \<Rightarrow> state" where
  "onload_v3 loaded rnd st =
     (let st = st\<lparr>settings := loaded\<rparr>;
          st = st\<lparr>observers := Suc (observers st)\<rparr>
      in st\<lparr>document := updateBackgrounds_v3 (settings st) rnd (document st)\<rparr>)"

definition onunload_v3 :: "state \<Rightarrow> state" where
  "onunload_v3 st =
     (let st = st\<lparr>observers := observers st - 1\<rparr>
      in st\<lparr>document := removeBackgrounds (document st)\<rparr>)"

subsection \<open>The random variant without teardown (lines 199 to 393)\<close>

definition applyBackgroundAndOverlay_v4 ::
  "settings \<Rightarrow> rat \<Rightarrow> nat list \<Rightarrow> number \<Rightarrow> element \<Rightarrow> element" where
  "applyBackgroundAndOverlay_v4 s random elems opacity =
     (let backgroundImageUrl = getRandomBackground s random in
      forEach elems
        (styleElement (restyle_framed backgroundImageUrl) ''background-overlay''
           (overlay_alpha opacity)))"

text \<open>
  \<^verbatim>\<open>updateBackgrounds\<close>: five node lists, each queried after the one before is styled,
  then a new mutation observer on \<^verbatim>\<open>document.body\<close>. The observers are counted;
  their callbacks, which style the kanban lanes and items in the same way when nodes are
  added, are left out.
\<close>

definition updateBackgrounds_v4 :: "(nat \<Rightarrow> rat) \<Rightarrow> state \<Rightarrow> state" where
  "updateBackgrounds_v4 rnd st =
     (let s = settings st; doc = document st;
          titleBarTexts = querySelectorAll ''view-content'' doc;
          doc = applyBackgroundAndOverlay_v4 s (rnd 0) titleBarTexts
                  (viewContent (opacitySettings s)) doc;
          headerContainers = querySelectorAll ''workspace-tab-header-container'' doc;
          doc = applyBackgroundAndOverlay_v4 s (rnd 1) headerContainers
                  (tabHeaderContainer (opacitySettings s)) doc;
          headerTabs = querySelectorAll ''workspace-tab-header'' doc;
          doc = applyBackgroundAndOverlay_v4 s (rnd 2) headerTabs
                  (tabHeader (opacitySettings s)) doc;
          viewHeaders = querySelectorAll ''view-header'' doc;
          doc = applyBackgroundAndOverlay_v4 s (rnd 3) viewHeaders
                  (tabHeader (opacitySettings s)) doc;
          leaves = querySelectorAll ''workspace-leaf'' doc;
          doc = applyBackgroundAndOverlay_v4 s (rnd 4) leaves
                  (workspaceLeaf (opacitySettings s)) doc
      in st\<lparr>document := doc, observers := Suc (observers st)\<rparr>)"

subsection \<open>The variant with the timer and the opacities (lines 394 to 704)\<close>

definition applyBackgroundAndOverlay_v5 ::
  "nat list \<Rightarrow> string option \<Rightarrow> number \<Rightarrow> element \<Rightarrow> element" where
  "applyBackgroundAndOverlay_v5 elems backgroundImageUrl opacity =
     forEach elems
       (styleElement (restyle_framed backgroundImageUrl) ''background-overlay''
          (overlay_alpha opacity))"

definition updateBackgrounds_v5 :: "state \<Rightarrow> state" where
  "updateBackgrounds_v5 st =
     (let s = settings st; doc = document st;
          backgroundImageUrl = array_get (backgrounds s) (currentBackgroundIndex st);
          titleBarTexts = querySelectorAll ''view-content'' doc;
          doc = applyBackgroundAndOverlay_v5 titleBarTexts backgroundImageUrl
                  (viewContent (opacitySettings s)) doc;
          headerContainers = querySelectorAll ''workspace-tab-header-container'' doc;
          doc = applyBackgroundAndOverlay_v5 headerContainers backgroundImageUrl
                  (tabHeaderContainer (opacitySettings s)) doc;
          headerTabs = querySelectorAll ''workspace-tab-header'' doc;
          doc = applyBackgroundAndOverlay_v5 headerTabs backgroundImageUrl
                  (tabHeader (opacitySettings s)) doc;
          leaves = querySelectorAll ''workspace-leaf'' doc;
          doc = applyBackgroundAndOverlay_v5 leaves backgroundImageUrl
                  (workspaceLeaf (opacitySettings s)) doc
      in st\<lparr>document := doc, observers := Suc (observers st)\<rparr>)"

text \<open>\<^verbatim>\<open>startBackgroundChange\<close> and the callback it gives to \<^verbatim>\<open>setInterval\<close>.\<close>

definition startBackgroundChange_v5 :: "state \<Rightarrow> state" where
  "startBackgroundChange_v5 st =
     (let (id, st) = setInterval (interval (settings st)) st in st\<lparr>intervalId := Some id\<rparr>)"

definition intervalCallback_v5 :: "state \<Rightarrow> state" where
  "intervalCallback_v5 st =
     (let st = st\<lparr>currentBackgroundIndex :=
                  js_mod (js_add (currentBackgroundIndex st) (Num 1))
                    (array_length (backgrounds (settings st)))\<rparr>
      in updateBackgrounds_v5 st)"

text \<open>
  The state right after \<^verbatim>\<open>loadSettings\<close> in \<^verbatim>\<open>onload\<close>: the loaded settings, the
  document as the host shows it, no timer and no observer of the plugin's yet.
\<close>

definition newPlugin :: "settings \<Rightarrow> element \<Rightarrow> nat \<Rightarrow> state" where
  "newPlugin loaded doc n =
     \<lparr>settings = loaded, intervalId = None, currentBackgroundIndex = Num 0, document = doc,
      observers = 0, timers = [], nextTimerId = n, saved = None, console = []\<rparr>"

definition onload_v5 :: "state \<Rightarrow> state" where
  "onload_v5 st = startBackgroundChange_v5 st"

definition onunload_v5 :: "state \<Rightarrow> state" where
  "onunload_v5 st = clearInterval (intervalId st) st"

text \<open>
  The handlers of the settings tab are asynchronous: the part up to
  \<^verbatim>\<open>await this.plugin.saveSettings()\<close> runs at once, the rest when the save has
  finished. Both parts are given, and the handler run without interruption.
\<close>

definition interval_onChange_v5_begin :: "string \<Rightarrow> state \<Rightarrow> state" where
  "interval_onChange_v5_begin value st =
     saveSettings (st\<lparr>settings := (settings st)\<lparr>interval := parseInt value\<rparr>\<rparr>)"

definition interval_onChange_v5_resume :: "state \<Rightarrow> state" where
  "interval_onChange_v5_resume st =
     (let st = clearInterval (intervalId st) st;
          st = startBackgroundChange_v5 st
      in updateBackgrounds_v5 st)"

definition interval_onChange_v5 :: "string \<Rightarrow> state \<Rightarrow> state" where
  "interval_onChange_v5 value st = interval_onChange_v5_resume (interval_onChange_v5_begin value st)"

definition backgrounds_onChange_v5_begin :: "string \<Rightarrow> state \<Rightarrow> state" where
  "backgrounds_onChange_v5_begin value st =
     saveSettings (st\<lparr>settings := (settings st)\<lparr>backgrounds := map trim (split CHR '','' value)\<rparr>\<rparr>)"

text \<open>
  \<^verbatim>\<open>document.querySelectorAll('.a .b')\<close>: the elements of class \<open>b\<close> below an element of
  class \<open>a\<close>.
\<close>

fun below :: "bool \<Rightarrow> string \<Rightarrow> string \<Rightarrow> element \<Rightarrow> nat list" where
  "below inside a b (Element i cs st ch) =
     (if inside \<and> b \<in> set cs then [i] else []) @
     concat (map (below (inside \<or> a \<in> set cs) a b) ch)"

definition querySelectorAll_below :: "string \<Rightarrow> string \<Rightarrow> element \<Rightarrow> nat list" where
  "querySelectorAll_below a b doc = below False a b doc"

text \<open>
  The six sliders of the settings tab: the field a slider stores, and the class below
  which its handler looks for overlays to recolour.
\<close>

datatype slider = Sidebar | ViewContent | TabHeaderContainer | TabHeader | WorkspaceLeaf | KanbanItem

fun storeOpacity :: "slider \<Rightarrow> number \<Rightarrow> opacitySettings \<Rightarrow> opacitySettings" where
  "storeOpacity Sidebar v os = os\<lparr>sidebar := v\<rparr>"
| "storeOpacity ViewContent v os = os\<lparr>viewContent := v\<rparr>"
| "storeOpacity TabHeaderContainer v os = os\<lparr>tabHeaderContainer := v\<rparr>"
| "storeOpacity TabHeader v os = os\<lparr>tabHeader := v\<rparr>"
| "storeOpacity WorkspaceLeaf v os = os\<lparr>workspaceLeaf := v\<rparr>"
| "storeOpacity KanbanItem v os = os\<lparr>kanbanItem := v\<rparr>"

fun recoloured :: "slider \<Rightarrow> string" where
  "recoloured Sidebar = ''workspace-tab-header-container''"
| "recoloured ViewContent = ''workspace-tab-header-container''"
| "recoloured TabHeaderContainer = ''workspace-tab-header''"
| "recoloured TabHeader = ''workspace-leaf''"
| "recoloured WorkspaceLeaf = ''kanban-plugin__lane''"
| "recoloured KanbanItem = ''kanban-plugin__item-title-wrapper''"

definition opacity_onChange_v5_begin :: "slider \<Rightarrow> number \<Rightarrow> state \<Rightarrow> state" where
  "opacity_onChange_v5_begin sl value st =
     (let st = st\<lparr>settings :=
                  (settings st)\<lparr>opacitySettings := storeOpacity sl value (opacitySettings (settings st))\<rparr>\<rparr>;
          overlays = querySelectorAll_below (recoloured sl) ''background-overlay'' (document st);
          st = st\<lparr>document :=
                  forEach overlays
                    (\<lambda>el. modify el (withStyle (AList.update ''background'' (WhiteAlpha value))))
                    (document st)\<rparr>
      in saveSettings st)"

text \<open>
  What the host can make a loaded instance do: fire a timer it still holds, deliver an
  input of the settings tab, resume a handler after its save (the interval handler
  restarts the timer and restyles, the others restyle only), report a change of the active
  leaf, unload it.
\<close>

datatype event =
    TimerFires nat
  | IntervalInput string
  | IntervalSaved
  | BackgroundsInput string
  | OpacityInput slider number
  | Restyle
  | Unload

fun step_v5 :: "event \<Rightarrow> state \<Rightarrow> state" where
  "step_v5 (TimerFires i) st = (if i \<in> fst ` set (timers st) then intervalCallback_v5 st else st)"
| "step_v5 (IntervalInput value) st = interval_onChange_v5_begin value st"
| "step_v5 IntervalSaved st = interval_onChange_v5_resume st"
| "step_v5 (BackgroundsInput value) st = backgrounds_onChange_v5_begin value st"
| "step_v5 (OpacityInput sl value) st = opacity_onChange_v5_begin sl value st"
| "step_v5 Restyle st = updateBackgrounds_v5 st"
| "step_v5 Unload st = onunload_v5 st"

definition run_v5 :: "settings \<Rightarrow> element \<Rightarrow> nat \<Rightarrow> event list \<Rightarrow> state" where
  "run_v5 loaded doc n evs = fold step_v5 evs (onload_v5 (newPlugin loaded doc n))"

section \<open>The timer of the first two variants\<close>



definition startBackgroundChange_v2 :: "state \<Rightarrow> state" where
  "startBackgroundChange_v2 st =
     (let (id, st) = setInterval (interval (settings st)) st in st\<lparr>intervalId := Some id\<rparr>)"

definition intervalCallback_v2 :: "state \<Rightarrow> state" where
  "intervalCallback_v2 st =
     (let (i, doc) = tick_v2 (settings st) (currentBackgroundIndex st, document st)
      in st\<lparr>currentBackgroundIndex := i, document := doc\<rparr>)"

definition onload_v2 :: "state \<Rightarrow> state" where
  "onload_v2 st = startBackgroundChange_v2 st"

definition onunload_v2 :: "state \<Rightarrow> state" where
  "onunload_v2 st = clearInterval (intervalId st) st"

definition interval_onChange_v2 :: "string \<Rightarrow> state \<Rightarrow> state" where
  "interval_onChange_v2 value st =
     saveSettings (st\<lparr>settings := (settings st)\<lparr>interval := parseInt value\<rparr>\<rparr>)"

definition backgrounds_onChange_v2_begin :: "string \<Rightarrow> state \<Rightarrow> state" where
  "backgrounds_onChange_v2_begin value st =
     saveSettings (st\<lparr>settings := (settings st)\<lparr>backgrounds := map trim (split CHR '','' value)\<rparr>\<rparr>)"

definition restyle_v2 :: "state \<Rightarrow> state" where
  "restyle_v2 st =
     st\<lparr>document := updateBackgrounds_v2 (settings st) (currentBackgroundIndex st) (document st)\<rparr>"

text \<open>The events of the second variant; it has no sliders and its interval handler ends with the save.\<close>

fun step_v2 :: "event \<Rightarrow> state \<Rightarrow> state" where
  "step_v2 (TimerFires i) st = (if i \<in> fst ` set (timers st) then intervalCallback_v2 st else st)"
| "step_v2 (IntervalInput value) st = interval_onChange_v2 value st"
| "step_v2 IntervalSaved st = st"
| "step_v2 (BackgroundsInput value) st = backgrounds_onChange_v2_begin value st"
| "step_v2 (OpacityInput sl value) st = st"
| "step_v2 Restyle st = restyle_v2 st"
| "step_v2 Unload st = onunload_v2 st"

definition run_v2 :: "settings \<Rightarrow> element \<Rightarrow> nat \<Rightarrow> event list \<Rightarrow> state" where
  "run_v2 loaded doc n evs = fold step_v2 evs (onload_v2 (newPlugin loaded doc n))"

section \<open>The debounced handler (src/unnamed/part_001, lines 63 to 69)\<close>

text \<open>
  Time is counted in milliseconds. The closure of \<^verbatim>\<open>debounce\<close> holds the handle
  \<open>timeout\<close>; the host holds the pending timeouts, each with its identifier, the time
  it is due and the arguments its callback passes on; \<open>calls\<close> lists the invocations of
  the debounced function, with their time and arguments.
\<close>

record 'a debouncer =
  timeout :: "nat option"
  pending :: "(nat \<times> nat \<times> 'a) list"
  nextId :: nat
  calls :: "(nat \<times> 'a) list"

definition newDebouncer :: "nat \<Rightarrow> 'a debouncer" where
  "newDebouncer n = \<lparr>timeout = None, pending = [], nextId = n, calls = []\<rparr>"

definition clearTimeout :: "nat option \<Rightarrow> 'a debouncer \<Rightarrow> 'a debouncer" where
  "clearTimeout h d = d\<lparr>pending := filter (\<lambda>(i, due, args). Some i \<noteq> h) (pending d)\<rparr>"

definition setTimeout :: "nat \<Rightarrow> nat \<Rightarrow> 'a \<Rightarrow> 'a debouncer \<Rightarrow> nat \<times> 'a debouncer" where
  "setTimeout now wait args d =
     (nextId d, d\<lparr>pending := pending d @ [(nextId d, now + wait, args)], nextId := Suc (nextId d)\<rparr>)"

text \<open>The function \<^verbatim>\<open>debounce\<close> returns, called at the time \<open>now\<close>.\<close>

definition debounced :: "nat \<Rightarrow> nat \<Rightarrow> 'a \<Rightarrow> 'a debouncer \<Rightarrow> 'a debouncer" where
  "debounced wait now args d =
     (let d = clearTimeout (timeout d) d;
          (id, d) = setTimeout now wait args d
      in d\<lparr>timeout := Some id\<rparr>)"

text \<open>The host runs the callbacks of the timeouts that are due at \<open>now\<close>.\<close>

definition runDue :: "nat \<Rightarrow> 'a debouncer \<Rightarrow> 'a debouncer" where
  "runDue now d =
     d\<lparr>calls := calls d @ map (\<lambda>(i, due, args). (due, args)) (filter (\<lambda>(i, due, args). due \<le> now) (pending d)),
       pending := filter (\<lambda>(i, due, args). \<not> due \<le> now) (pending d)\<rparr>"

text \<open>
  The events are given with their times; before an event the host runs what is due, and
  after the last one every pending timeout runs in the end.
\<close>

definition invocations :: "nat \<Rightarrow> nat \<Rightarrow> (nat \<times> 'a) list \<Rightarrow> (nat \<times> 'a) list" where
  "invocations n wait evs =
     (let d = fold (\<lambda>(now, args) d. debounced wait now args (runDue now d)) evs (newDebouncer n)
      in calls d @ map (\<lambda>(i, due, args). (due, args)) (pending d))"

text \<open>Each event arrives at or after its predecessor and within its quiet window.\<close>

fun withinWindow :: "nat \<Rightarrow> (nat \<times> 'a) list \<Rightarrow> bool" where
  "withinWindow wait (a # b # evs) =
     (fst a \<le> fst b \<and> fst b < fst a + wait \<and> withinWindow wait (b # evs))"
| "withinWindow wait evs = True"

section \<open>Loading the settings\<close>

text \<open>
  The persisted document and the defaults as JavaScript values. A parsed object is the
  list of its own properties in insertion order; reading a property takes its last
  entry, as an object literal with a repeated key does. \<^verbatim>\<open>JSON.parse\<close> defines every key
  of the text as an own data property, the key \<^verbatim>\<open>__proto__\<close> too.
\<close>

datatype jsval =
    JNull | JBool bool | JNum number | JStr string | JArr "jsval list"
  | JObj "(string \<times> jsval) list"

type_synonym jsobject = "(string \<times> jsval) list"

text \<open>The own property \<open>k\<close> of a parsed object, \<open>None\<close> when it has none.\<close>

definition ownProperty :: "jsobject \<Rightarrow> string \<Rightarrow> jsval option" where
  "ownProperty obj k = map_of (rev obj) k"

text \<open>\<^verbatim>\<open>obj.k1.k2\<close> over own properties, \<open>None\<close> for \<^verbatim>\<open>undefined\<close>.\<close>

definition ownProperty2 :: "jsobject \<Rightarrow> string \<Rightarrow> string \<Rightarrow> jsval option" where
  "ownProperty2 obj k1 k2 =
     (case ownProperty obj k1 of Some (JObj inner) \<Rightarrow> ownProperty inner k2 | _ \<Rightarrow> None)"

text \<open>The own properties of a parsed object, each key once with the value read for it.\<close>

definition ownEntries :: "jsobject \<Rightarrow> jsobject" where
  "ownEntries obj = rev (AList.clearjunk (rev obj))"

text \<open>
  The object that \<^verbatim>\<open>Object.assign\<close> fills: its own properties and its prototype, which
  is \<^verbatim>\<open>Object.prototype\<close> for the literal \<^verbatim>\<open>{}\<close> and, after an assignment to
  \<^verbatim>\<open>__proto__\<close>, null or a parsed object or array (whose own prototype chain ends in
  \<^verbatim>\<open>Object.prototype\<close>).
\<close>

datatype prototype = ObjectPrototype | Proto jsval

record ordinaryObject =
  ownProperties :: jsobject
  prototype :: prototype

definition emptyObject :: ordinaryObject where
  "emptyObject = \<lparr>ownProperties = [], prototype = ObjectPrototype\<rparr>"

text \<open>
  Whether an assignment to \<^verbatim>\<open>__proto__\<close> on an object without such an own property
  reaches the accessor of \<^verbatim>\<open>Object.prototype\<close>: not below a null prototype, and not when
  the parsed object that is the prototype has \<^verbatim>\<open>__proto__\<close> as an own data property.
\<close>

definition setterReachable :: "prototype \<Rightarrow> bool" where
  "setterReachable p =
     (case p of
        ObjectPrototype \<Rightarrow> True
      | Proto (JObj inherited) \<Rightarrow> map_of inherited ''__proto__'' = None
      | Proto (JArr xs) \<Rightarrow> True
      | Proto _ \<Rightarrow> False)"

text \<open>
  The assignment \<^verbatim>\<open>obj[k] = v\<close>. Every property on the prototype chain is a writable
  data property, except the accessor \<^verbatim>\<open>__proto__\<close> of \<^verbatim>\<open>Object.prototype\<close>; so the
  assignment writes the own property \<open>k\<close>, unless it reaches that accessor. The setter
  adds no own property: it makes an object, an array or null the prototype and ignores
  any other value.
\<close>

definition ordinarySet :: "string \<Rightarrow> jsval \<Rightarrow> ordinaryObject \<Rightarrow> ordinaryObject" where
  "ordinarySet k v obj =
     (if k = ''__proto__'' \<and> map_of (ownProperties obj) k = None \<and> setterReachable (prototype obj)
      then (case v of
              JObj inherited \<Rightarrow> obj\<lparr>prototype := Proto v\<rparr>
            | JArr xs \<Rightarrow> obj\<lparr>prototype := Proto v\<rparr>
            | JNull \<Rightarrow> obj\<lparr>prototype := Proto v\<rparr>
            | _ \<Rightarrow> obj)
      else obj\<lparr>ownProperties := AList.update k v (ownProperties obj)\<rparr>)"

text \<open>
  \<^verbatim>\<open>Object.assign(target, ...sources)\<close>: the own properties of each source are assigned
  to the target in order; a source that is \<^verbatim>\<open>null\<close> (here \<open>None\<close>) is skipped.
  \<^verbatim>\<open>loadData\<close> gives the parsed object of the data file, or \<^verbatim>\<open>null\<close> when there is none.
\<close>

definition Object_assign :: "ordinaryObject \<Rightarrow> jsobject option list \<Rightarrow> ordinaryObject" where
  "Object_assign target sources =
     fold (\<lambda>source target.
             case source of
               None \<Rightarrow> target
             | Some from \<Rightarrow> fold (\<lambda>(k, v). ordinarySet k v) (ownEntries from) target)
       sources target"

text \<open>The default background of the first two variants; the character 0x27 is the single quote.\<close>

definition freepik :: string where
  "freepik =
     ''url('' @ [CHR 0x27] @
     ''https://img.freepik.com/free-photo/geometric-shapes-orange-background_23-2148209958.jpg?size=626&ext=jpg&ga=GA1.1.1174352020.1726297089&semt=ais_hybrid'' @
     [CHR 0x27] @ '')''"

definition DEFAULT_SETTINGS_v1 :: jsobject where
  "DEFAULT_SETTINGS_v1 =
     [(''interval'', JNum (Num 3000)), (''backgrounds'', JArr [JStr freepik, JStr freepik])]"

definition DEFAULT_SETTINGS_v3 :: jsobject where
  "DEFAULT_SETTINGS_v3 =
     [(''backgrounds'',
         JArr [JStr ''https://example.com/image1.jpg'', JStr ''https://example.com/image2.jpg'',
               JStr ''https://example.com/image3.jpg'']),
      (''opacitySettings'',
         JObj [(''viewContent'', JNum (Num (5 / 10))), (''tabHeaderContainer'', JNum (Num (4 / 10))),
               (''tabHeader'', JNum (Num (3 / 10))), (''workspaceLeaf'', JNum (Num (6 / 10))),
               (''kanbanItem'', JNum (Num (7 / 10)))])]"

definition loadSettings_v1 :: "jsobject option \<Rightarrow> ordinaryObject" where
  "loadSettings_v1 data = Object_assign emptyObject [Some DEFAULT_SETTINGS_v1, data]"

definition loadSettings_v3 :: "jsobject option \<Rightarrow> ordinaryObject" where
  "loadSettings_v3 data = Object_assign emptyObject [Some DEFAULT_SETTINGS_v3, data]"

section \<open>Accepting a list of backgrounds (src/unnamed/part_001, lines 161 to 184)\<close>

text \<open>
  \<^verbatim>\<open>new URL(url)\<close> belongs to the host: it returns a URL object or throws. It is the
  parameter \<open>newURL\<close>; \<open>Inl\<close> is the exception thrown.
\<close>

datatype exn = TypeError string

definition isValidUrl :: "(string \<Rightarrow> exn + 'u) \<Rightarrow> string \<Rightarrow> state \<Rightarrow> exn + bool \<times> state" where
  "isValidUrl newURL url st =
     (case newURL url of
        Inr u \<Rightarrow> Inr (True, st)
      | Inl e \<Rightarrow> Inr (False, st\<lparr>console := console st @ [''Invalid URL: '' @ url]\<rparr>))"

text \<open>\<^verbatim>\<open>urls.filter(p)\<close> for a predicate that writes to the console and may throw.\<close>

fun filterE ::
  "(string \<Rightarrow> state \<Rightarrow> exn + bool \<times> state) \<Rightarrow> string list \<Rightarrow> state \<Rightarrow> exn + string list \<times> state" where
  "filterE p [] st = Inr ([], st)"
| "filterE p (x # xs) st =
     (case p x st of
        Inl e \<Rightarrow> Inl e
      | Inr (keep, st) \<Rightarrow>
          (case filterE p xs st of
             Inl e \<Rightarrow> Inl e
           | Inr (ys, st) \<Rightarrow> Inr (if keep then x # ys else ys, st)))"

definition backgrounds_onChange_v3 :: "(string \<Rightarrow> exn + 'u) \<Rightarrow> string \<Rightarrow> state \<Rightarrow> exn + state" where
  "backgrounds_onChange_v3 newURL value st =
     (let urls = map trim (split CHR '','' value) in
      case filterE (isValidUrl newURL) urls st of
        Inl e \<Rightarrow> Inl e
      | Inr (valid, st) \<Rightarrow>
          Inr (saveSettings (st\<lparr>settings := (settings st)\<lparr>backgrounds := valid\<rparr>\<rparr>)))"

section \<open>Notions used in the statements and proofs\<close>

text \<open>The tree has an element of class \<open>cls\<close>, the root counted.\<close>

definition containsClass :: "string \<Rightarrow> element \<Rightarrow> bool" where
  "containsClass cls u = (\<exists>d\<in>set (elements u). hasClass cls d)"

text \<open>
  Every element with the identifier \<open>i\<close> has an overlay of class \<open>cls\<close> below it, and
  its style is a fixed point of \<open>g\<close>.
\<close>

definition covered :: "string \<Rightarrow> element \<Rightarrow> nat \<Rightarrow> bool" where
  "covered cls t i = (\<forall>e\<in>set (elements t). eid e = i \<longrightarrow> querySelector cls e \<noteq> None)"

definition settled :: "(css \<Rightarrow> css) \<Rightarrow> element \<Rightarrow> nat \<Rightarrow> bool" where
  "settled g t i = (\<forall>e\<in>set (elements t). eid e = i \<longrightarrow> g (style e) = style e)"

definition good :: "(css \<Rightarrow> css) \<Rightarrow> string \<Rightarrow> element \<Rightarrow> nat set \<Rightarrow> bool" where
  "good g cls t S = (\<forall>i\<in>S. i \<in> set (ids t) \<and> covered cls t i \<and> settled g t i)"

text \<open>What the overlays of all variants have in common: one class, no children.\<close>

definition overlayLike :: "string \<Rightarrow> nat \<Rightarrow> element \<Rightarrow> bool" where
  "overlayLike cls n ov = (eid ov = n \<and> classList ov = [cls] \<and> childNodes ov = [])"

text \<open>
  The shape all \<^verbatim>\<open>updateBackgrounds\<close> share: for each selector in turn, query the document
  and run the body over the node list.
\<close>

fun restyleAll ::
  "(css \<Rightarrow> css) \<Rightarrow> string \<Rightarrow> (string \<times> (nat \<Rightarrow> element)) list \<Rightarrow> element \<Rightarrow> element" where
  "restyleAll g cls [] doc = doc"
| "restyleAll g cls ((sel, mk) # ts) doc =
     restyleAll g cls ts (forEach (querySelectorAll sel doc) (styleElement g cls mk) doc)"

definition makers :: "string \<Rightarrow> (string \<times> (nat \<Rightarrow> element)) list \<Rightarrow> bool" where
  "makers cls ts = (\<forall>(sel, mk)\<in>set ts. sel \<noteq> cls \<and> (\<forall>n. overlayLike cls n (mk n)))"

text \<open>A document seen without some of its inline style.\<close>

primrec mapStyle :: "(css \<Rightarrow> css) \<Rightarrow> element \<Rightarrow> element" where
  "mapStyle h (Element i cs st ch) = Element i cs (h st) (map (mapStyle h) ch)"

text \<open>The tree with its identifiers and classes, all inline style dropped.\<close>

definition shape :: "element \<Rightarrow> element" where
  "shape = mapStyle (\<lambda>st. [])"

definition withoutBackgroundImage :: "element \<Rightarrow> element" where
  "withoutBackgroundImage = mapStyle (AList.delete ''backgroundImage'')"

text \<open>The inline styles of the elements with the identifier \<open>i\<close> (one, in a well-formed document).\<close>

definition stylesOf :: "nat \<Rightarrow> element \<Rightarrow> css list" where
  "stylesOf i doc = map style (filter (\<lambda>e. eid e = i) (elements doc))"


text \<open>The same with a style function for each selector.\<close>

fun restyleEach ::
  "string \<Rightarrow> (string \<times> (css \<Rightarrow> css) \<times> (nat \<Rightarrow> element)) list \<Rightarrow> element \<Rightarrow> element" where
  "restyleEach cls [] doc = doc"
| "restyleEach cls ((sel, g, mk) # ts) doc =
     restyleEach cls ts (forEach (querySelectorAll sel doc) (styleElement g cls mk) doc)"


text \<open>The selectors of \<^verbatim>\<open>updateBackgrounds\<close> in part_000 and in the random variant without teardown.\<close>

definition targets_v2 :: "(string \<times> (nat \<Rightarrow> element)) list" where
  "targets_v2 = [(''view-content'', overlay_fixed), (''workspace-tab-header-container'', overlay_fixed)]"




text \<open>The background images of the content areas, in document order.\<close>

definition backgroundImages :: "element \<Rightarrow> cssval option list" where
  "backgroundImages doc =
     map (\<lambda>e. map_of (style e) ''backgroundImage'') (filter (hasClass ''view-content'') (elements doc))"

text \<open>The index after one tick.\<close>

definition advance :: "settings \<Rightarrow> number \<Rightarrow> number" where
  "advance s i = js_mod (js_add i (Num 1)) (array_length (backgrounds s))"

text \<open>
  The debounced function has not run yet, and the one pending timeout is that of the event
  at the time \<open>t\<close> with the arguments \<open>a\<close>.
\<close>

definition armed :: "nat \<Rightarrow> 'a debouncer \<Rightarrow> nat \<Rightarrow> 'a \<Rightarrow> bool" where
  "armed wait d t a =
     (calls d = [] \<and> (\<exists>i. timeout d = Some i \<and> pending d = [(i, t + wait, a)]))"

text \<open>At most one timer is active, and it is the one \<open>intervalId\<close> names.\<close>

definition tidyTimers :: "state \<Rightarrow> bool" where
  "tidyTimers st = (length (timers st) \<le> 1 \<and> (\<forall>(i, p)\<in>set (timers st). intervalId st = Some i))"

text \<open>The same on a document without background images: no draw is needed.\<close>

definition step_v3_plain :: "string \<times> number \<Rightarrow> element \<Rightarrow> element" where
  "step_v3_plain = (\<lambda>(selector, opacity) doc.
          let elems = querySelectorAll selector doc;
              doc = forEach elems (\<lambda>el. modify el (classList_add ''dynamic-backgrounds'')) doc
          in forEach elems
               (styleElement id ''dynamic-backgrounds-overlay''
                  (\<lambda>n. withoutBackgroundImage (overlay_v3 opacity n))) doc)"

text \<open>The selectors of \<^verbatim>\<open>updateBackgrounds\<close> in the variant with the timer and the opacities.\<close>

definition targets_v5 :: "state \<Rightarrow> (string \<times> (css \<Rightarrow> css) \<times> (nat \<Rightarrow> element)) list" where
  "targets_v5 st =
     (let s = settings st;
          g = restyle_framed (array_get (backgrounds s) (currentBackgroundIndex st))
      in [(''view-content'', g, overlay_alpha (viewContent (opacitySettings s))),
          (''workspace-tab-header-container'', g, overlay_alpha (tabHeaderContainer (opacitySettings s))),
          (''workspace-tab-header'', g, overlay_alpha (tabHeader (opacitySettings s))),
          (''workspace-leaf'', g, overlay_alpha (workspaceLeaf (opacitySettings s)))])"

section \<open>Sample inputs\<close>

text \<open>The default backgrounds and opacities of part_001, with the default interval.\<close>

definition sampleSettings :: settings where
  "sampleSettings =
     \<lparr>interval = Num 3000,
      backgrounds = [''https://example.com/image1.jpg'', ''https://example.com/image2.jpg'',
                     ''https://example.com/image3.jpg''],
      opacitySettings =
        \<lparr>sidebar = Num (5 / 10), viewContent = Num (5 / 10), tabHeaderContainer = Num (4 / 10),
         tabHeader = Num (3 / 10), workspaceLeaf = Num (6 / 10), kanbanItem = Num (7 / 10)\<rparr>\<rparr>"

text \<open>A pane: a leaf with its content inside.\<close>

definition paneDocument :: element where
  "paneDocument =
     Element 0 [] [] [Element 1 [''workspace-leaf''] [] [Element 2 [''view-content''] [] []]]"

text \<open>A tab bar: the container of the tab headers with one tab header inside.\<close>

definition tabBarDocument :: element where
  "tabBarDocument =
     Element 0 [] []
       [Element 1 [''workspace-tab-header-container''] []
          [Element 2 [''workspace-tab-header''] [] []]]"

text \<open>One content area.\<close>

definition viewDocument :: element where
  "viewDocument = Element 0 [] [] [Element 1 [''view-content''] [] []]"

text \<open>Two content areas side by side.\<close>

definition twoViewsDocument :: element where
  "twoViewsDocument =
     Element 0 [] [] [Element 1 [''view-content''] [] [], Element 2 [''view-content''] [] []]"

text \<open>Two sources of random numbers: one always draws 0, the other always one half.\<close>

definition drawZero :: "nat \<Rightarrow> rat" where
  "drawZero k = 0"

definition drawHalf :: "nat \<Rightarrow> rat" where
  "drawHalf k = 1 / 2"

text \<open>One tick over the three sample backgrounds, then the list is cut to one entry.\<close>

definition shrunkRun :: state where
  "shrunkRun = run_v2 sampleSettings viewDocument 1 [TimerFires 1, BackgroundsInput ''a'']"

text \<open>A persisted document that has one of the five opacities and nothing else.\<close>

definition partialData :: jsobject where
  "partialData = [(''opacitySettings'', JObj [(''viewContent'', JNum (Num (9 / 10)))])]"

text \<open>A persisted document with the key \<^verbatim>\<open>__proto__\<close> and an interval.\<close>

definition protoData :: jsobject where
  "protoData = [(''__proto__'', JObj [(''interval'', JNum (Num 5))]), (''interval'', JNum (Num 7))]"

text \<open>Five events within 300 milliseconds.\<close>

definition fiveEvents :: "(nat \<times> string) list" where
  "fiveEvents = [(0, ''a''), (50, ''b''), (100, ''c''), (150, ''d''), (200, ''e'')]"

text \<open>A stand-in for \<^verbatim>\<open>new URL\<close> that accepts what starts with \<^verbatim>\<open>https://\<close>.\<close>

definition schemeOnly :: "string \<Rightarrow> exn + string" where
  "schemeOnly url = (if take 8 url = ''https://'' then Inr url else Inl (TypeError ''Invalid URL''))"

text \<open>The sample settings after the opacity of the content has been raised to 0.9.\<close>

definition brighterSettings :: settings where
  "brighterSettings =
     sampleSettings\<lparr>opacitySettings := (opacitySettings sampleSettings)\<lparr>viewContent := Num (9 / 10)\<rparr>\<rparr>"

text \<open>The variant with the teardown, loaded over the tab bar and over the pane.\<close>

definition tabBarLoaded :: state where
  "tabBarLoaded = onload_v3 sampleSettings drawZero (newPlugin sampleSettings tabBarDocument 1)"

definition paneLoaded :: state where
  "paneLoaded = onload_v3 sampleSettings drawZero (newPlugin sampleSettings paneDocument 1)"

section \<open>Properties of the document operations\<close>

lemma querySelectorAll_Element [simp]:
  "querySelectorAll c (Element j cs st ch) =
     (if c \<in> set cs then [j] else []) @ concat (map (querySelectorAll c) ch)"
  by (simp add: querySelectorAll_def[abs_def] hasClass_def filter_concat map_concat comp_def)

lemma ids_Element [simp]: "ids (Element j cs st ch) = j # concat (map ids ch)"
  by (simp add: ids_def[abs_def] map_concat comp_def)

lemma querySelector_Element [simp]:
  "querySelector cls (Element j cs st ch) = find (hasClass cls) (concat (map elements ch))"
  by (simp add: querySelector_def)

lemma containsClass_Element [simp]:
  "containsClass cls (Element j cs st ch) \<longleftrightarrow> cls \<in> set cs \<or> (\<exists>c\<in>set ch. containsClass cls c)"
  by (auto simp: containsClass_def hasClass_def)

lemma find_overlay_iff:
  "find (hasClass cls) (concat (map elements ch)) = None \<longleftrightarrow> (\<forall>c\<in>set ch. \<not> containsClass cls c)"
  by (auto simp: containsClass_def find_None_iff)

lemma find_overlay_Some:
  "(\<exists>y. find (hasClass cls) (concat (map elements ch)) = Some y) \<longleftrightarrow>
     (\<exists>c\<in>set ch. containsClass cls c)"
  using find_overlay_iff[of cls ch] by (cases "find (hasClass cls) (concat (map elements ch))") auto

lemma styleBody_Element [simp]:
  "styleBody g cls ov (Element j cs st ch) =
     Element j cs (g st) (ch @ (if \<forall>c\<in>set ch. \<not> containsClass cls c then [ov] else []))"
  by (simp add: styleBody_def Let_def withStyle_def appendChild_def find_overlay_iff)

lemma modify_id:
  "(\<And>e. e \<in> set (elements t) \<Longrightarrow> eid e = i \<Longrightarrow> f e = e) \<Longrightarrow> modify i f t = t"
proof (induction t)
  case (Element j cs st ch)
  have ch: "map (modify i f) ch = ch"
    using Element by (auto intro!: map_idI)
  have "i = j \<Longrightarrow> f (Element j cs st ch) = Element j cs st ch"
    using Element.prems[of "Element j cs st ch"] by simp
  then show ?case by (simp add: ch Let_def)
qed

lemma styleElement_id:
  assumes "covered cls t i" "settled g t i"
  shows "styleElement g cls mk i t = t"
  unfolding styleElement_def
proof (rule modify_id)
  fix e assume e: "e \<in> set (elements t)" "eid e = i"
  then have "querySelector cls e \<noteq> None" "g (style e) = style e"
    using assms by (auto simp: covered_def settled_def)
  then show "styleBody g cls (mk (fresh t)) e = e"
    by (cases e) (auto simp: find_overlay_iff)
qed

lemma querySelectorAll_overlay:
  "overlayLike cls n ov \<Longrightarrow> sel \<noteq> cls \<Longrightarrow> querySelectorAll sel ov = []"
  by (cases ov) (auto simp: overlayLike_def)

lemma querySelectorAll_modify:
  assumes "overlayLike cls n ov" "sel \<noteq> cls"
  shows "querySelectorAll sel (modify i (styleBody g cls ov) t) = querySelectorAll sel t"
proof (induction t)
  case (Element j cs st ch)
  have ch: "map (querySelectorAll sel) (map (modify i (styleBody g cls ov)) ch) =
            map (querySelectorAll sel) ch"
    using Element by simp
  show ?case
  proof (cases "i = j")
    case True
    then show ?thesis
      using ch querySelectorAll_overlay[OF assms] by (simp add: Let_def del: map_map)
  next
    case False
    then show ?thesis using ch by (simp add: Let_def del: map_map)
  qed
qed

lemma ids_modify_subset: "set (ids t) \<subseteq> set (ids (modify i (styleBody g cls ov) t))"
proof (induction t)
  case (Element j cs st ch)
  then show ?case by (auto simp: Let_def)
qed

lemma containsClass_modify:
  "containsClass c t \<Longrightarrow> containsClass c (modify i (styleBody g cls ov) t)"
proof (induction t)
  case (Element j cs st ch)
  then show ?case by (auto simp: Let_def)
qed

lemma covered_Element:
  "covered cls (Element j cs st ch) k \<longleftrightarrow>
     (j = k \<longrightarrow> (\<exists>c\<in>set ch. containsClass cls c)) \<and> (\<forall>c\<in>set ch. covered cls c k)"
  by (auto simp: covered_def find_overlay_Some)

lemma settled_Element:
  "settled g (Element j cs st ch) k \<longleftrightarrow> (j = k \<longrightarrow> g st = st) \<and> (\<forall>c\<in>set ch. settled g c k)"
  by (auto simp: settled_def)

lemma covered_overlay: "overlayLike cls n ov \<Longrightarrow> k \<noteq> n \<Longrightarrow> covered cls' ov k"
  by (cases ov) (auto simp: overlayLike_def covered_Element)

lemma settled_overlay: "overlayLike cls n ov \<Longrightarrow> k \<noteq> n \<Longrightarrow> settled g ov k"
  by (cases ov) (auto simp: overlayLike_def settled_Element)

lemma containsClass_overlay: "overlayLike cls n ov \<Longrightarrow> containsClass cls ov"
  by (cases ov) (auto simp: overlayLike_def)

lemma covered_modify:
  assumes "overlayLike cls n ov" "k \<noteq> n"
  shows "covered cls t k \<Longrightarrow> covered cls (modify i (styleBody g cls ov) t) k"
proof (induction t)
  case (Element j cs st ch)
  then show ?case
    using covered_overlay[OF assms]
    by (auto simp: Let_def covered_Element intro: containsClass_modify)
qed

lemma covered_modify_self:
  assumes "overlayLike cls n ov" "i \<noteq> n"
  shows "covered cls (modify i (styleBody g cls ov) t) i"
proof (induction t)
  case (Element j cs st ch)
  let ?m = "modify i (styleBody g cls ov)"
  have kids: "\<forall>c\<in>set (map ?m ch). covered cls c i"
    using Element by simp
  show ?case
  proof (cases "\<forall>c\<in>set ch. \<not> containsClass cls (?m c)")
    case True
    then show ?thesis
      using kids covered_overlay[OF assms] containsClass_overlay[OF assms(1)]
      by (auto simp: Let_def covered_Element)
  next
    case False
    then show ?thesis
      using kids by (auto simp: Let_def covered_Element)
  qed
qed

lemma settled_modify:
  assumes "overlayLike cls n ov" "k \<noteq> n" "\<And>st. g (g st) = g st"
  shows "settled g t k \<Longrightarrow> settled g (modify i (styleBody g cls ov) t) k"
proof (induction t)
  case (Element j cs st ch)
  then show ?case
    using settled_overlay[OF assms(1,2)] assms(3)
    by (auto simp: Let_def settled_Element)
qed

lemma settled_modify_self:
  assumes "overlayLike cls n ov" "i \<noteq> n" "\<And>st. g (g st) = g st"
  shows "settled g (modify i (styleBody g cls ov) t) i"
proof (induction t)
  case (Element j cs st ch)
  then show ?case
    using settled_overlay[OF assms(1,2)] assms(3)
    by (auto simp: Let_def settled_Element)
qed

lemma fold_max_ge: "a \<le> fold max xs (a::nat)"
  by (induction xs arbitrary: a) (auto intro: order_trans[OF max.cobounded2])

lemma fold_max_mem: "i \<in> set xs \<Longrightarrow> i \<le> fold max xs (a::nat)"
proof (induction xs arbitrary: a)
  case Nil
  then show ?case by simp
next
  case (Cons x xs)
  show ?case
  proof (cases "i = x")
    case True
    have "x \<le> max x a" by simp
    also have "\<dots> \<le> fold max xs (max x a)" by (rule fold_max_ge)
    finally show ?thesis using True by simp
  next
    case False
    then show ?thesis using Cons by simp
  qed
qed

lemma fresh_gt: "i \<in> set (ids t) \<Longrightarrow> i < fresh t"
  using fold_max_mem[of i "ids t" 0] by (simp add: fresh_def)

section \<open>Properties of a pass over the selectors\<close>

lemma good_step:
  assumes mk: "\<And>n. overlayLike cls n (mk n)" and idem: "\<And>st. g (g st) = g st"
    and g: "good g cls t S" and i: "i \<in> set (ids t)"
  shows "good g cls (styleElement g cls mk i t) (insert i S)"
  unfolding good_def styleElement_def
proof (intro ballI conjI)
  fix k assume k: "k \<in> insert i S"
  let ?n = "fresh t"
  have kt: "k \<in> set (ids t)" using k g i by (auto simp: good_def)
  then have kn: "k \<noteq> ?n" using fresh_gt[of k t] by auto
  show "k \<in> set (ids (modify i (styleBody g cls (mk ?n)) t))"
    using kt ids_modify_subset by blast
  show "covered cls (modify i (styleBody g cls (mk ?n)) t) k"
  proof (cases "k = i")
    case True
    then show ?thesis using covered_modify_self[OF mk, of i ?n] kn by simp
  next
    case False
    then have "covered cls t k" using k g by (auto simp: good_def)
    then show ?thesis using covered_modify[OF mk kn] by simp
  qed
  show "settled g (modify i (styleBody g cls (mk ?n)) t) k"
  proof (cases "k = i")
    case True
    then show ?thesis using settled_modify_self[OF mk, of i ?n g] kn idem by simp
  next
    case False
    then have "settled g t k" using k g by (auto simp: good_def)
    then show ?thesis using settled_modify[OF mk kn idem] by simp
  qed
qed

lemma ids_styleElement: "set (ids t) \<subseteq> set (ids (styleElement g cls mk i t))"
  unfolding styleElement_def by (rule ids_modify_subset)

lemma good_forEach:
  assumes mk: "\<And>n. overlayLike cls n (mk n)" and idem: "\<And>st. g (g st) = g st"
  shows "set L \<subseteq> set (ids t) \<Longrightarrow> good g cls t S \<Longrightarrow>
         good g cls (forEach L (styleElement g cls mk) t) (S \<union> set L)"
proof (induction L arbitrary: t S)
  case Nil
  then show ?case by (simp add: forEach_def)
next
  case (Cons i L)
  have 1: "good g cls (styleElement g cls mk i t) (insert i S)"
    using good_step[OF mk idem Cons.prems(2)] Cons.prems(1) by simp
  have 2: "set L \<subseteq> set (ids (styleElement g cls mk i t))"
    using Cons.prems(1) ids_styleElement[of t g cls mk i] by auto
  show ?case using Cons.IH[OF 2 1] by (simp add: forEach_def)
qed

lemma querySelectorAll_styleElement:
  "(\<And>n. overlayLike cls n (mk n)) \<Longrightarrow> sel \<noteq> cls \<Longrightarrow>
   querySelectorAll sel (styleElement g cls mk i t) = querySelectorAll sel t"
  unfolding styleElement_def by (rule querySelectorAll_modify)

lemma querySelectorAll_forEach:
  assumes mk: "\<And>n. overlayLike cls n (mk n)" and sel: "sel \<noteq> cls"
  shows "querySelectorAll sel (forEach L (styleElement g cls mk) t) = querySelectorAll sel t"
  using querySelectorAll_styleElement[of cls mk sel g, OF mk sel]
  by (induction L arbitrary: t) (simp_all add: forEach_def)

lemma querySelectorAll_ids: "set (querySelectorAll sel t) \<subseteq> set (ids t)"
  by (auto simp: querySelectorAll_def ids_def)

lemma querySelectorAll_restyleAll:
  "makers cls ts \<Longrightarrow> sel \<noteq> cls \<Longrightarrow>
   querySelectorAll sel (restyleAll g cls ts t) = querySelectorAll sel t"
  by (induction g cls ts t rule: restyleAll.induct)
     (auto simp: makers_def querySelectorAll_forEach)

lemma good_restyleAll:
  assumes idem: "\<And>st. g (g st) = g st"
  shows "makers cls ts \<Longrightarrow> good g cls t S \<Longrightarrow>
         good g cls (restyleAll g cls ts t)
           (S \<union> (\<Union>(sel, mk)\<in>set ts. set (querySelectorAll sel t)))"
proof (induction ts arbitrary: t S)
  case Nil
  then show ?case by simp
next
  case (Cons a ts)
  obtain sel mk where a: "a = (sel, mk)" by (cases a)
  let ?t1 = "forEach (querySelectorAll sel t) (styleElement g cls mk) t"
  have mk: "\<And>n. overlayLike cls n (mk n)" and sel: "sel \<noteq> cls" and rest: "makers cls ts"
    using Cons.prems(1) by (auto simp: makers_def a)
  have 1: "good g cls ?t1 (S \<union> set (querySelectorAll sel t))"
    by (rule good_forEach[OF mk idem querySelectorAll_ids Cons.prems(2)])
  have q: "\<And>s m. (s, m) \<in> set ts \<Longrightarrow> querySelectorAll s ?t1 = querySelectorAll s t"
    using rest by (auto simp: makers_def querySelectorAll_forEach[OF mk])
  have "(\<Union>(s, m)\<in>set ts. set (querySelectorAll s ?t1)) =
        (\<Union>(s, m)\<in>set ts. set (querySelectorAll s t))"
    using q by auto
  then show ?case
    using Cons.IH[OF rest 1] by (simp add: a Un_assoc)
qed



lemma good_after_restyleAll:
  assumes idem: "\<And>st. g (g st) = g st" and mk: "makers cls ts"
    and a: "(sel, m) \<in> set ts" "i \<in> set (querySelectorAll sel (restyleAll g cls ts t))"
  shows "covered cls (restyleAll g cls ts t) i \<and> settled g (restyleAll g cls ts t) i"
proof -
  let ?d = "restyleAll g cls ts t"
  have "good g cls t {}" by (simp add: good_def)
  from good_restyleAll[OF idem mk this]
  have g: "good g cls ?d (\<Union>(sel, mk)\<in>set ts. set (querySelectorAll sel t))" by simp
  have "sel \<noteq> cls" using mk a(1) by (auto simp: makers_def)
  then have "querySelectorAll sel ?d = querySelectorAll sel t"
    by (rule querySelectorAll_restyleAll[OF mk])
  then have "i \<in> (\<Union>(sel, mk)\<in>set ts. set (querySelectorAll sel t))"
    using a by auto
  then show ?thesis using g by (auto simp: good_def)
qed


section \<open>Assignments to the inline style\<close>

lemma map_of_assign:
  "map_of (assign kvs st) k = (case map_of (rev kvs) k of None \<Rightarrow> map_of st k | Some v \<Rightarrow> Some v)"
proof (induction kvs arbitrary: st)
  case Nil
  then show ?case by (simp add: assign_def)
next
  case (Cons a kvs)
  obtain p v where a: "a = (p, v)" by (cases a)
  have "assign (a # kvs) st = assign kvs (AList.update p v st)"
    by (simp add: assign_def a)
  then show ?case
    using Cons[of "AList.update p v st"]
    by (auto simp: a update_conv' map_add_def split: option.splits)
qed

lemma assign_triv: "(\<And>k v. (k, v) \<in> set kvs \<Longrightarrow> map_of st k = Some v) \<Longrightarrow> assign kvs st = st"
proof (induction kvs)
  case Nil
  then show ?case by (simp add: assign_def)
next
  case (Cons a kvs)
  obtain p v where a: "a = (p, v)" by (cases a)
  have "AList.update p v st = st"
    using Cons.prems[of p v] by (simp add: a update_triv)
  moreover have "assign kvs st = st"
    using Cons by simp
  ultimately show ?case by (simp add: assign_def a)
qed

lemma assign_idem:
  assumes "distinct (map fst kvs)"
  shows "assign kvs (assign kvs st) = assign kvs st"
proof (rule assign_triv)
  fix k v assume "(k, v) \<in> set kvs"
  then have "map_of (rev kvs) k = Some v"
    using assms by (simp add: rev_map[symmetric])
  then show "map_of (assign kvs st) k = Some v"
    by (simp add: map_of_assign)
qed

lemma restyle_plain_idem: "restyle_plain bg (restyle_plain bg st) = restyle_plain bg st"
  unfolding restyle_plain_def by (rule assign_idem) simp

lemma restyle_framed_idem: "restyle_framed bg (restyle_framed bg st) = restyle_framed bg st"
  unfolding restyle_framed_def by (rule assign_idem) simp

lemma overlayLike_fixed: "overlayLike ''background-overlay'' n (overlay_fixed n)"
  by (simp add: overlayLike_def overlay_fixed_def)

lemma overlayLike_alpha: "overlayLike ''background-overlay'' n (overlay_alpha op n)"
  by (simp add: overlayLike_def overlay_alpha_def)

lemma overlayLike_v3: "overlayLike ''dynamic-backgrounds-overlay'' n (overlay_v3 op n)"
  by (simp add: overlayLike_def overlay_v3_def)

lemma updateBackgrounds_v2_restyleAll:
  "updateBackgrounds_v2 s idx doc =
     restyleAll (restyle_plain (array_get (backgrounds s) idx)) ''background-overlay'' targets_v2 doc"
  by (simp add: updateBackgrounds_v2_def applyBackgroundAndOverlay_v2_def Let_def targets_v2_def)

lemma makers_v2: "makers ''background-overlay'' targets_v2"
  by (simp add: makers_def targets_v2_def overlayLike_fixed)



section \<open>A document seen without some of its style\<close>

lemma mapStyle_sel [simp]:
  "eid (mapStyle h e) = eid e"
  "classList (mapStyle h e) = classList e"
  "style (mapStyle h e) = h (style e)"
  "childNodes (mapStyle h e) = map (mapStyle h) (childNodes e)"
  by (cases e; simp)+

lemma containsClass_mapStyle [simp]: "containsClass c (mapStyle h t) = containsClass c t"
  by (induction t) auto

lemma ids_mapStyle [simp]: "ids (mapStyle h t) = ids t"
proof (induction t)
  case (Element j cs st ch)
  have "map ids (map (mapStyle h) ch) = map ids ch"
    using Element by simp
  then show ?case by (simp del: map_map)
qed

lemma fresh_mapStyle [simp]: "fresh (mapStyle h t) = fresh t"
  by (simp add: fresh_def)

lemma querySelectorAll_mapStyle [simp]: "querySelectorAll c (mapStyle h t) = querySelectorAll c t"
proof (induction t)
  case (Element j cs st ch)
  have "map (querySelectorAll c) (map (mapStyle h) ch) = map (querySelectorAll c) ch"
    using Element by simp
  then show ?case by (simp del: map_map)
qed

lemma mapStyle_modify:
  assumes "\<And>e. mapStyle h (f e) = f' (mapStyle h e)"
  shows "mapStyle h (modify i f t) = modify i f' (mapStyle h t)"
proof (induction t)
  case (Element j cs st ch)
  have ch: "map (mapStyle h) (map (modify i f) ch) = map (modify i f') (map (mapStyle h) ch)"
    using Element by simp
  show ?case
  proof (cases "i = j")
    case True
    have "mapStyle h (f (Element j cs st (map (modify i f) ch))) =
          f' (Element j cs (h st) (map (modify i f') (map (mapStyle h) ch)))"
      using ch assms[of "Element j cs st (map (modify i f) ch)"] by (simp del: map_map)
    then show ?thesis using True by (simp add: Let_def del: map_map)
  next
    case False
    then show ?thesis using ch by (simp add: Let_def del: map_map)
  qed
qed

lemma mapStyle_styleBody:
  assumes "\<And>st. h (g st) = g' (h st)"
  shows "mapStyle h (styleBody g cls ov e) = styleBody g' cls (mapStyle h ov) (mapStyle h e)"
  by (cases e) (simp add: assms)

lemma mapStyle_styleElement:
  assumes "\<And>st. h (g st) = g' (h st)"
  shows "mapStyle h (styleElement g cls mk i t) =
         styleElement g' cls (\<lambda>n. mapStyle h (mk n)) i (mapStyle h t)"
proof -
  have "\<And>e. mapStyle h (styleBody g cls (mk (fresh t)) e) =
             styleBody g' cls (mapStyle h (mk (fresh t))) (mapStyle h e)"
    using assms by (rule mapStyle_styleBody[of h g g'])
  then show ?thesis
    unfolding styleElement_def
    by (simp add: mapStyle_modify[where f' = "styleBody g' cls (mapStyle h (mk (fresh t)))"])
qed

lemma mapStyle_forEach:
  assumes "\<And>st. h (g st) = g' (h st)"
  shows "mapStyle h (forEach L (styleElement g cls mk) t) =
         forEach L (styleElement g' cls (\<lambda>n. mapStyle h (mk n))) (mapStyle h t)"
proof -
  have "\<And>i t. mapStyle h (styleElement g cls mk i t) =
               styleElement g' cls (\<lambda>n. mapStyle h (mk n)) i (mapStyle h t)"
    using assms by (rule mapStyle_styleElement[of h g g'])
  then show ?thesis
    by (induction L arbitrary: t) (simp_all add: forEach_def)
qed


lemma covered_mapStyle [simp]: "covered cls (mapStyle h t) i = covered cls t i"
  by (induction t) (auto simp: covered_Element)

section \<open>The random variant without teardown, seen without style\<close>



lemma settings_updateBackgrounds_v4 [simp]: "settings (updateBackgrounds_v4 rnd st) = settings st"
  by (simp add: updateBackgrounds_v4_def Let_def)





section \<open>At most one overlay child\<close>










section \<open>Every matched element has an overlay below it\<close>


lemma covered_shape: "covered cls (shape t) i = covered cls t i"
  by (simp add: shape_def)



section \<open>C1: a second pass appends no overlay\<close>




section \<open>C3: a tick of the cycle\<close>

lemma js_mod_nat:
  "0 < b \<Longrightarrow> js_mod (Num (of_nat a)) (Num (of_nat b)) = Num (of_nat (a mod b))"
proof -
  assume b: "0 < b"
  have "(of_nat a :: rat) / of_nat b \<ge> 0" by simp
  then have t: "truncate_rat (of_nat a / of_nat b) = int (a div b)"
    by (simp add: truncate_rat_def floor_divide_of_nat_eq)
  have "(of_nat a :: rat) = of_nat (b * (a div b) + a mod b)" by simp
  then have "(of_nat a :: rat) - of_nat b * of_nat (a div b) = of_nat (a mod b)"
    by (simp only: of_nat_add of_nat_mult)
  then show ?thesis using b by (simp add: t)
qed

lemma advance_nat:
  "0 < length (backgrounds s) \<Longrightarrow>
   advance s (Num (of_nat i)) = Num (of_nat (Suc i mod length (backgrounds s)))"
proof -
  assume "0 < length (backgrounds s)"
  from js_mod_nat[OF this, of "Suc i"] show ?thesis
    by (simp add: advance_def array_length_def add.commute)
qed

lemma advance_funpow:
  "i < length (backgrounds s) \<Longrightarrow>
   (advance s ^^ k) (Num (of_nat i)) = Num (of_nat ((i + k) mod length (backgrounds s)))"
proof (induction k)
  case 0
  then show ?case by simp
next
  case (Suc k)
  have pos: "0 < length (backgrounds s)"
    using Suc.prems by (cases "backgrounds s") auto
  have "(advance s ^^ Suc k) (Num (of_nat i)) =
        advance s (Num (of_nat ((i + k) mod length (backgrounds s))))"
    using Suc by simp
  also have "\<dots> = Num (of_nat (Suc ((i + k) mod length (backgrounds s)) mod length (backgrounds s)))"
    by (rule advance_nat[OF pos])
  finally show ?case by (simp add: mod_Suc_eq)
qed

lemma fst_tick_v2: "fst (tick_v2 s p) = advance s (fst p)"
  by (cases p) (simp add: tick_v2_def advance_def Let_def)

lemma fst_tick_v1: "fst (tick_v1 s p) = advance s (fst p)"
  by (cases p) (simp add: tick_v1_def advance_def Let_def)

lemma fst_funpow:
  fixes f :: "'a \<times> 'b \<Rightarrow> 'a \<times> 'b" and g :: "'a \<Rightarrow> 'a"
  assumes "\<And>p. fst (f p) = g (fst p)"
  shows "fst ((f ^^ k) p) = (g ^^ k) (fst p)"
proof (induction k)
  case 0
  show ?case by simp
next
  case (Suc k)
  then show ?case using assms[of "(f ^^ k) p"] by simp
qed

lemma index_returns:
  fixes f :: "number \<times> element \<Rightarrow> number \<times> element"
  assumes "\<And>p. fst (f p) = advance s (fst p)" and "i < length (backgrounds s)"
  shows "fst ((f ^^ length (backgrounds s)) (Num (of_nat i), doc)) = Num (of_nat i)"
  using fst_funpow[of f "advance s", OF assms(1)] advance_funpow[OF assms(2)] assms(2)
  by simp

lemma snd_tick_v2:
  "snd (tick_v2 s (idx, doc)) = updateBackgrounds_v2 s (fst (tick_v2 s (idx, doc))) doc"
  by (simp add: tick_v2_def Let_def)

lemma backgroundImage_v2:
  assumes e: "e \<in> set (elements (updateBackgrounds_v2 s idx doc))"
    and c: "hasClass ''view-content'' e \<or> hasClass ''workspace-tab-header-container'' e"
  shows "map_of (style e) ''backgroundImage'' = Some (Lit (template (array_get (backgrounds s) idx)))"
proof -
  let ?g = "restyle_plain (array_get (backgrounds s) idx)"
  let ?d = "restyleAll ?g ''background-overlay'' targets_v2 doc"
  obtain sel where sel: "(sel, overlay_fixed) \<in> set targets_v2" "hasClass sel e"
    using c by (auto simp: targets_v2_def)
  have "eid e \<in> set (querySelectorAll sel ?d)"
    using e sel(2) by (auto simp: querySelectorAll_def updateBackgrounds_v2_restyleAll)
  then have "settled ?g ?d (eid e)"
    by (intro conjunct2[OF good_after_restyleAll[where g = ?g and m = overlay_fixed and sel = sel]]
          restyle_plain_idem makers_v2 sel(1))
  then have "?g (style e) = style e"
    using e by (auto simp: settled_def updateBackgrounds_v2_restyleAll)
  then have "map_of (style e) ''backgroundImage'' = map_of (?g (style e)) ''backgroundImage''"
    by simp
  also have "\<dots> = Some (Lit (template (array_get (backgrounds s) idx)))"
    by (simp add: restyle_plain_def map_of_assign)
  finally show ?thesis .
qed

text \<open>
  The index of the cycle. A tick of part_000 sets the index to (index + 1) mod the number
  of backgrounds and then restyles: every element of the two target classes carries the
  background at the new index. The tick of src/main.ts advances its index by the same
  rule, after its restyle. From a starting index below the number N of backgrounds, N
  ticks of either lead back to it.
\<close>

lemma tick_advances_and_wraps:
  "fst (tick_v2 s (idx, doc)) = js_mod (js_add idx (Num 1)) (array_length (backgrounds s))
   \<and> fst (tick_v1 s (idx, doc)) = js_mod (js_add idx (Num 1)) (array_length (backgrounds s))
   \<and> (\<forall>e\<in>set (elements (snd (tick_v2 s (idx, doc)))).
         hasClass ''view-content'' e \<or> hasClass ''workspace-tab-header-container'' e \<longrightarrow>
         map_of (style e) ''backgroundImage'' =
           Some (Lit (template (array_get (backgrounds s) (fst (tick_v2 s (idx, doc)))))))
   \<and> (i < length (backgrounds s) \<longrightarrow>
         fst ((tick_v2 s ^^ length (backgrounds s)) (Num (of_nat i), doc)) = Num (of_nat i))
   \<and> (i < length (backgrounds s) \<longrightarrow>
         fst ((tick_v1 s ^^ length (backgrounds s)) (Num (of_nat i), doc)) = Num (of_nat i))"
proof (intro conjI ballI impI)
  show "fst (tick_v2 s (idx, doc)) = js_mod (js_add idx (Num 1)) (array_length (backgrounds s))"
    by (simp add: fst_tick_v2 advance_def)
  show "fst (tick_v1 s (idx, doc)) = js_mod (js_add idx (Num 1)) (array_length (backgrounds s))"
    by (simp add: fst_tick_v1 advance_def)
next
  fix e
  assume "e \<in> set (elements (snd (tick_v2 s (idx, doc))))"
    and "hasClass ''view-content'' e \<or> hasClass ''workspace-tab-header-container'' e"
  then show "map_of (style e) ''backgroundImage'' =
      Some (Lit (template (array_get (backgrounds s) (fst (tick_v2 s (idx, doc))))))"
    using backgroundImage_v2 by (simp only: snd_tick_v2)
next
  assume "i < length (backgrounds s)"
  then show "fst ((tick_v2 s ^^ length (backgrounds s)) (Num (of_nat i), doc)) = Num (of_nat i)"
    by (intro index_returns fst_tick_v2)
next
  assume "i < length (backgrounds s)"
  then show "fst ((tick_v1 s ^^ length (backgrounds s)) (Num (of_nat i), doc)) = Num (of_nat i)"
    by (intro index_returns fst_tick_v1)
qed

lemma tick_advances_and_wraps_sample:
  "(1::nat) < length (backgrounds sampleSettings)
   \<and> fst ((tick_v2 sampleSettings ^^ length (backgrounds sampleSettings)) (Num (of_nat 1), viewDocument))
       = Num (of_nat 1)
   \<and> fst ((tick_v1 sampleSettings ^^ length (backgrounds sampleSettings)) (Num (of_nat 1), viewDocument))
       = Num (of_nat 1)
   \<and> filter (hasClass ''view-content'') (elements (snd (tick_v2 sampleSettings (Num 0, viewDocument)))) \<noteq> []
   \<and> list_all
        (\<lambda>e. map_of (style e) ''backgroundImage'' = Some (Lit ''https://example.com/image2.jpg''))
        (filter (hasClass ''view-content'') (elements (snd (tick_v2 sampleSettings (Num 0, viewDocument)))))"
proof -
  have a: "(1::nat) < length (backgrounds sampleSettings)"
    by (simp add: sampleSettings_def)
  have b: "filter (hasClass ''view-content'') (elements (snd (tick_v2 sampleSettings (Num 0, viewDocument)))) \<noteq> []"
    by code_simp
  have c: "template (array_get (backgrounds sampleSettings) (fst (tick_v2 sampleSettings (Num 0, viewDocument))))
           = ''https://example.com/image2.jpg''"
    by code_simp
  show ?thesis
    using a b tick_advances_and_wraps[of sampleSettings "Num 0" viewDocument 1]
    unfolding c by (simp add: list_all_iff)
qed

text \<open>
  The index is not reset when the list of backgrounds changes. After one tick over the
  three sample backgrounds the index is 1; the user then shortens the list to one entry,
  and the one tick that follows leads to 0, not back to 1.
\<close>

lemma index_after_shortened_list:
  "currentBackgroundIndex shrunkRun = Num 1
   \<and> length (backgrounds (settings shrunkRun)) = 1
   \<and> currentBackgroundIndex (step_v2 (TimerFires 1) shrunkRun) = Num 0"
  by code_simp

text \<open>
  In src/main.ts the restyle does not read the cycle index: whatever the index is, the
  first content area gets the first background and the second the second.
\<close>

lemma tick_v1_styles_by_position:
  "backgroundImages (snd (tick_v1 sampleSettings (Num 0, twoViewsDocument))) =
     [Some (Lit ''https://example.com/image1.jpg''), Some (Lit ''https://example.com/image2.jpg'')]"
  "backgroundImages (snd (tick_v1 sampleSettings (Num 1, twoViewsDocument))) =
     [Some (Lit ''https://example.com/image1.jpg''), Some (Lit ''https://example.com/image2.jpg'')]"
  "backgroundImages (snd (tick_v2 sampleSettings (Num 0, twoViewsDocument))) =
     [Some (Lit ''https://example.com/image2.jpg''), Some (Lit ''https://example.com/image2.jpg'')]"
  by code_simp+

text \<open>
  C3 fails in src/main.ts, lines 28 to 64. The parameter \<^verbatim>\<open>index\<close> of the callback given
  to \<^verbatim>\<open>forEach\<close> hides the cycle index, so the restyle uses the background at the
  position of the element in the node list, and it runs before the index advances. With
  the three sample backgrounds, one content area and the cycle index at 1, the tick
  gives the content area the first background and leaves the index at 2; the background
  at the new index is the third (at the old index, the second), and the tick of
  part_000 from the same state applies the third. Line 31 of the same callback logs
  \<^verbatim>\<open>this.settings.backgrounds[index]\<close> with the cycle index.
\<close>

theorem tick_v1_restyles_by_position:
  "backgroundImages (snd (tick_v1 sampleSettings (Num 1, viewDocument))) =
     [Some (Lit ''https://example.com/image1.jpg'')]
   \<and> fst (tick_v1 sampleSettings (Num 1, viewDocument)) = Num 2
   \<and> array_get (backgrounds sampleSettings) (Num 1) = Some ''https://example.com/image2.jpg''
   \<and> array_get (backgrounds sampleSettings) (Num 2) = Some ''https://example.com/image3.jpg''
   \<and> backgroundImages (snd (tick_v2 sampleSettings (Num 1, viewDocument))) =
       [Some (Lit ''https://example.com/image3.jpg'')]"
  by code_simp

section \<open>C6: loading the settings\<close>

lemma map_of_rev_distinct: "distinct (map fst xs) \<Longrightarrow> map_of (rev xs) = map_of xs"
proof -
  assume d: "distinct (map fst xs)"
  then have "distinct (map fst (rev xs))" by (simp add: rev_map[symmetric])
  then show ?thesis using d by (simp add: map_of_inject_set)
qed

lemma ownProperty_distinct: "distinct (map fst obj) \<Longrightarrow> ownProperty obj k = map_of obj k"
  by (simp add: ownProperty_def map_of_rev_distinct)

lemma distinct_ownEntries: "distinct (map fst (ownEntries obj))"
  by (simp add: ownEntries_def rev_map[symmetric])

lemma map_of_ownEntries: "map_of (ownEntries obj) k = ownProperty obj k"
proof -
  have "map_of (rev (AList.clearjunk (rev obj))) = map_of (AList.clearjunk (rev obj))"
    by (rule map_of_rev_distinct) (rule distinct_clearjunk)
  then show ?thesis by (simp add: ownEntries_def ownProperty_def map_of_clearjunk)
qed

lemma ownEntries_distinct: "distinct (map fst obj) \<Longrightarrow> ownEntries obj = obj"
  by (simp add: ownEntries_def rev_map[symmetric])

lemma ordinarySet_other:
  "k \<noteq> p \<Longrightarrow> map_of (ownProperties (ordinarySet p v obj)) k = map_of (ownProperties obj) k"
  by (simp add: ordinarySet_def update_conv' split: jsval.splits)

lemma ordinarySet_same:
  "p \<noteq> ''__proto__'' \<Longrightarrow> map_of (ownProperties (ordinarySet p v obj)) p = Some v"
  by (simp add: ordinarySet_def update_conv')

lemma ordinarySet_distinct:
  "distinct (map fst (ownProperties obj)) \<Longrightarrow> distinct (map fst (ownProperties (ordinarySet p v obj)))"
  by (simp add: ordinarySet_def distinct_update split: jsval.splits)

lemma assign_distinct:
  "distinct (map fst (ownProperties obj)) \<Longrightarrow>
   distinct (map fst (ownProperties (fold (\<lambda>(k, v). ordinarySet k v) kvs obj)))"
  by (induction kvs arbitrary: obj) (auto simp: ordinarySet_distinct)

lemma assign_absent:
  "k \<notin> fst ` set kvs \<Longrightarrow>
   map_of (ownProperties (fold (\<lambda>(k, v). ordinarySet k v) kvs obj)) k = map_of (ownProperties obj) k"
  by (induction kvs arbitrary: obj) (auto simp: ordinarySet_other)

lemma assign_present:
  assumes "k \<noteq> ''__proto__''" "distinct (map fst kvs)"
  shows "map_of (ownProperties (fold (\<lambda>(k, v). ordinarySet k v) kvs obj)) k =
           (case map_of kvs k of None \<Rightarrow> map_of (ownProperties obj) k | Some v \<Rightarrow> Some v)"
  using assms(2)
proof (induction kvs arbitrary: obj)
  case Nil
  then show ?case by simp
next
  case (Cons a kvs)
  obtain p v where a: "a = (p, v)" by (cases a)
  show ?case
  proof (cases "p = k")
    case True
    then have "k \<notin> fst ` set kvs" using Cons.prems by (auto simp: a)
    then show ?thesis
      using assms(1) True by (simp add: a assign_absent ordinarySet_same)
  next
    case False
    then show ?thesis
      using Cons.IH[of "ordinarySet p v obj"] Cons.prems ordinarySet_other[of k p v obj]
      by (simp add: a split: option.splits)
  qed
qed

lemma assign_proto:
  assumes "distinct (map fst kvs)" "map_of (ownProperties obj) ''__proto__'' = None"
    "prototype obj = ObjectPrototype"
  shows "map_of (ownProperties (fold (\<lambda>(k, v). ordinarySet k v) kvs obj)) ''__proto__'' = None"
  using assms
proof (induction kvs arbitrary: obj)
  case Nil
  then show ?case by simp
next
  case (Cons a kvs)
  obtain p v where a: "a = (p, v)" by (cases a)
  show ?case
  proof (cases "p = ''__proto__''")
    case True
    then have "''__proto__'' \<notin> fst ` set kvs" using Cons.prems(1) by (auto simp: a)
    moreover have "map_of (ownProperties (ordinarySet p v obj)) ''__proto__'' = None"
      using Cons.prems(2,3) True
      by (simp add: ordinarySet_def setterReachable_def split: jsval.splits)
    ultimately show ?thesis by (simp add: a assign_absent)
  next
    case False
    have "map_of (ownProperties (ordinarySet p v obj)) ''__proto__'' = None"
      using Cons.prems(2) False by (simp add: ordinarySet_other)
    moreover have "prototype (ordinarySet p v obj) = ObjectPrototype"
      using Cons.prems(3) False by (simp add: ordinarySet_def)
    ultimately show ?thesis
      using Cons.IH[of "ordinarySet p v obj"] Cons.prems(1) by (simp add: a)
  qed
qed

lemma defaults_v1_assigned:
  "Object_assign emptyObject [Some DEFAULT_SETTINGS_v1] =
     \<lparr>ownProperties = DEFAULT_SETTINGS_v1, prototype = ObjectPrototype\<rparr>"
  by (simp add: Object_assign_def emptyObject_def DEFAULT_SETTINGS_v1_def ownEntries_def
        ordinarySet_def AList.delete_eq)

lemma defaults_v3_assigned:
  "Object_assign emptyObject [Some DEFAULT_SETTINGS_v3] =
     \<lparr>ownProperties = DEFAULT_SETTINGS_v3, prototype = ObjectPrototype\<rparr>"
  by (simp add: Object_assign_def emptyObject_def DEFAULT_SETTINGS_v3_def ownEntries_def
        ordinarySet_def AList.delete_eq)

lemma Object_assign_defaults:
  assumes d: "Object_assign emptyObject [Some defaults] =
                \<lparr>ownProperties = defaults, prototype = ObjectPrototype\<rparr>"
    and dist: "distinct (map fst defaults)"
    and np: "map_of defaults ''__proto__'' = None"
  shows "Object_assign emptyObject [Some defaults, None] =
           \<lparr>ownProperties = defaults, prototype = ObjectPrototype\<rparr>"
    and "k \<noteq> ''__proto__'' \<Longrightarrow>
         ownProperty (ownProperties (Object_assign emptyObject [Some defaults, Some persisted])) k =
           (case ownProperty persisted k of None \<Rightarrow> ownProperty defaults k | Some v \<Rightarrow> Some v)"
    and "ownProperty (ownProperties (Object_assign emptyObject [Some defaults, Some persisted])) ''__proto__'' = None"
proof -
  let ?t = "\<lparr>ownProperties = defaults, prototype = ObjectPrototype\<rparr>"
  let ?r = "fold (\<lambda>(k, v). ordinarySet k v) (ownEntries persisted) ?t"
  have two: "Object_assign emptyObject [Some defaults, data] =
             (case data of None \<Rightarrow> ?t | Some from \<Rightarrow> fold (\<lambda>(k, v). ordinarySet k v) (ownEntries from) ?t)"
    for data
    using d by (simp add: Object_assign_def split: option.splits)
  show "Object_assign emptyObject [Some defaults, None] = ?t"
    by (simp add: two)
  have dr: "distinct (map fst (ownProperties ?r))"
    by (rule assign_distinct) (simp add: dist)
  show "ownProperty (ownProperties (Object_assign emptyObject [Some defaults, Some persisted])) k =
           (case ownProperty persisted k of None \<Rightarrow> ownProperty defaults k | Some v \<Rightarrow> Some v)"
    if "k \<noteq> ''__proto__''"
    using assign_present[OF that distinct_ownEntries, of persisted ?t]
    by (simp add: two ownProperty_distinct[OF dr] ownProperty_distinct[OF dist] map_of_ownEntries
          split: option.splits)
  show "ownProperty (ownProperties (Object_assign emptyObject [Some defaults, Some persisted])) ''__proto__'' = None"
    using assign_proto[OF distinct_ownEntries, of ?t persisted] np
    by (simp add: two ownProperty_distinct[OF dr])
qed

text \<open>
  The key \<^verbatim>\<open>__proto__\<close> of a persisted document adds no property: the assignment makes
  its value the prototype of the loaded object, whose own interval is the persisted one.
\<close>

lemma proto_key_sets_the_prototype:
  "loadSettings_v1 (Some protoData) =
     \<lparr>ownProperties = [(''interval'', JNum (Num 7)), (''backgrounds'', JArr [JStr freepik, JStr freepik])],
      prototype = Proto (JObj [(''interval'', JNum (Num 5))])\<rparr>"
  by code_simp

text \<open>
  C6, as amended. The merge is shallow: the own property of the loaded object for a
  top-level key other than \<^verbatim>\<open>__proto__\<close> is the persisted one when the persisted document
  has the key and the default otherwise; the key \<^verbatim>\<open>__proto__\<close> reaches the setter of
  \<^verbatim>\<open>Object.prototype\<close> and gives no own property; with no data file the loaded object is
  the defaults. A nested record is a value like any other: when the persisted document
  has \<open>opacitySettings\<close>, the loaded record is the persisted one as a whole, so a key the
  persisted record lacks is missing after the load. The keys the two files read from
  the settings are keys of their defaults, so each is an own property of the loaded
  object and no read reaches the prototype.
\<close>

theorem loadSettings_shallow_merge:
  "(k \<noteq> ''__proto__'' \<longrightarrow>
      ownProperty (ownProperties (loadSettings_v3 (Some persisted))) k =
        (case ownProperty persisted k of None \<Rightarrow> ownProperty DEFAULT_SETTINGS_v3 k | Some v \<Rightarrow> Some v)
      \<and> ownProperty (ownProperties (loadSettings_v1 (Some persisted))) k =
        (case ownProperty persisted k of None \<Rightarrow> ownProperty DEFAULT_SETTINGS_v1 k | Some v \<Rightarrow> Some v))
   \<and> ownProperty (ownProperties (loadSettings_v3 (Some persisted))) ''__proto__'' = None
   \<and> ownProperty (ownProperties (loadSettings_v1 (Some persisted))) ''__proto__'' = None
   \<and> loadSettings_v3 None = \<lparr>ownProperties = DEFAULT_SETTINGS_v3, prototype = ObjectPrototype\<rparr>
   \<and> loadSettings_v1 None = \<lparr>ownProperties = DEFAULT_SETTINGS_v1, prototype = ObjectPrototype\<rparr>
   \<and> (ownProperty persisted ''opacitySettings'' = Some (JObj inner) \<longrightarrow>
        ownProperty2 (ownProperties (loadSettings_v3 (Some persisted))) ''opacitySettings'' k2 =
          ownProperty inner k2)"
proof -
  have d1: "distinct (map fst DEFAULT_SETTINGS_v1)" "map_of DEFAULT_SETTINGS_v1 ''__proto__'' = None"
    by (simp_all add: DEFAULT_SETTINGS_v1_def)
  have d3: "distinct (map fst DEFAULT_SETTINGS_v3)" "map_of DEFAULT_SETTINGS_v3 ''__proto__'' = None"
    by (simp_all add: DEFAULT_SETTINGS_v3_def)
  note v1 = Object_assign_defaults[OF defaults_v1_assigned d1]
  note v3 = Object_assign_defaults[OF defaults_v3_assigned d3]
  show ?thesis
    by (simp add: loadSettings_v3_def loadSettings_v1_def v1 v3 ownProperty2_def)
qed

theorem loadSettings_shallow_merge_witness:
  "''backgrounds'' \<noteq> ''__proto__''
   \<and> ownProperty partialData ''opacitySettings'' = Some (JObj [(''viewContent'', JNum (Num (9 / 10)))])
   \<and> ownProperty2 (ownProperties (loadSettings_v3 (Some partialData))) ''opacitySettings'' ''viewContent'' =
       Some (JNum (Num (9 / 10)))
   \<and> ownProperty (ownProperties (loadSettings_v3 (Some partialData))) ''backgrounds'' =
       ownProperty DEFAULT_SETTINGS_v3 ''backgrounds''"
proof -
  have a: "ownProperty partialData ''opacitySettings'' = Some (JObj [(''viewContent'', JNum (Num (9 / 10)))])"
    by (simp add: partialData_def ownProperty_def)
  have b: "ownProperty partialData ''backgrounds'' = None"
    by (simp add: partialData_def ownProperty_def)
  have c: "ownProperty [(''viewContent'', JNum (Num (9 / 10)))] ''viewContent'' = Some (JNum (Num (9 / 10)))"
    by (simp add: ownProperty_def)
  show ?thesis
    using a c
      loadSettings_shallow_merge[of "''backgrounds''" partialData
        "[(''viewContent'', JNum (Num (9 / 10)))]" "''viewContent''"]
    by (simp add: b)
qed

text \<open>
  C6, as stated, fails inside a nested record that is partly present: the persisted
  document gives only \<open>viewContent\<close>, and after the load \<open>tabHeader\<close> is undefined, not
  its default 0.3.
\<close>

theorem partial_nested_record_counterexample:
  "ownProperty2 (ownProperties (loadSettings_v3 (Some partialData))) ''opacitySettings'' ''tabHeader'' = None
   \<and> ownProperty2 DEFAULT_SETTINGS_v3 ''opacitySettings'' ''tabHeader'' = Some (JNum (Num (3 / 10)))"
  by code_simp

section \<open>C8: the debounced handler\<close>

lemma armed_first: "armed wait (debounced wait t a (runDue t (newDebouncer n))) t a"
  by (simp add: armed_def debounced_def runDue_def newDebouncer_def clearTimeout_def
        setTimeout_def Let_def)

lemma armed_next:
  assumes "armed wait d t a" "u < t + wait"
  shows "armed wait (debounced wait u b (runDue u d)) u b"
proof -
  obtain i where i: "calls d = []" "timeout d = Some i" "pending d = [(i, t + wait, a)]"
    using assms(1) by (auto simp: armed_def)
  have "runDue u d = d"
    using i assms(2) by (simp add: runDue_def)
  then show ?thesis
    using i by (simp add: armed_def debounced_def clearTimeout_def setTimeout_def Let_def)
qed

lemma armed_fold:
  "armed wait d t a \<Longrightarrow> withinWindow wait ((t, a) # evs) \<Longrightarrow>
   armed wait (fold (\<lambda>(now, args) d. debounced wait now args (runDue now d)) evs d)
     (fst (last ((t, a) # evs))) (snd (last ((t, a) # evs)))"
proof (induction evs arbitrary: d t a)
  case Nil
  then show ?case by simp
next
  case (Cons e evs)
  obtain u b where e: "e = (u, b)" by (cases e)
  have u: "u < t + wait" and w: "withinWindow wait ((u, b) # evs)"
    using Cons.prems(2) by (simp_all add: e)
  have "armed wait (debounced wait u b (runDue u d)) u b"
    using Cons.prems(1) u by (rule armed_next)
  from Cons.IH[OF this w] show ?case by (simp add: e)
qed

text \<open>
  C8. When every event arrives within the quiet window of its predecessor, the debounced
  function is invoked exactly once: at the end of the window of the last event, with the
  arguments of the last event.
\<close>

theorem debounce_trailing_edge:
  assumes "withinWindow wait evs" and "evs \<noteq> []"
  shows "invocations n wait evs = [(fst (last evs) + wait, snd (last evs))]"
proof -
  obtain t a rest where evs: "evs = (t, a) # rest"
    using assms(2) by (cases evs) auto
  let ?step = "\<lambda>(now, args) d. debounced wait now args (runDue now d)"
  have "armed wait (fold ?step rest (debounced wait t a (runDue t (newDebouncer n))))
          (fst (last evs)) (snd (last evs))"
    using armed_fold[OF armed_first, of wait t a rest n] assms(1) by (simp add: evs)
  then show ?thesis
    by (auto simp: invocations_def armed_def evs Let_def)
qed

text \<open>Two events further apart than the window are both answered.\<close>

lemma debounce_spaced_events:
  "invocations 1 300 [(0, ''a''), (1000, ''b'')] = [(300, ''a''), (1300, ''b'')]"
  by code_simp

theorem debounce_trailing_edge_witness:
  "withinWindow 300 fiveEvents \<and> fiveEvents \<noteq> []
   \<and> invocations 1 300 fiveEvents = [(500, ''e'')]"
proof -
  have a: "withinWindow 300 fiveEvents" "fiveEvents \<noteq> []"
    by (simp_all add: fiveEvents_def)
  have "fst (last fiveEvents) + 300 = 500" "snd (last fiveEvents) = ''e''"
    by (simp_all add: fiveEvents_def)
  then show ?thesis
    using a debounce_trailing_edge[OF a, of 1] by simp
qed

section \<open>C9: accepting a list of backgrounds\<close>

lemma isValidUrl_eq:
  "isValidUrl newURL u st =
     Inr (\<not> isl (newURL u),
          if isl (newURL u) then st\<lparr>console := console st @ [''Invalid URL: '' @ u]\<rparr> else st)"
  by (cases "newURL u") (simp_all add: isValidUrl_def)

lemma filterE_total:
  assumes "\<And>u st. p u st = Inr (ok u, report u st)"
  shows "filterE p urls st = Inr (filter ok urls, fold report urls st)"
  by (induction urls arbitrary: st) (simp_all add: assms)

lemma fold_warnings:
  "fold (\<lambda>u st. if bad u then st\<lparr>console := console st @ [warn u]\<rparr> else st) urls st =
     st\<lparr>console := console st @ map warn (filter bad urls)\<rparr>"
  by (induction urls arbitrary: st) simp_all

lemma filterE_isValidUrl:
  "filterE (isValidUrl newURL) urls st =
     Inr (filter (\<lambda>u. \<not> isl (newURL u)) urls,
          st\<lparr>console := console st @
                 map (\<lambda>u. ''Invalid URL: '' @ u) (filter (\<lambda>u. isl (newURL u)) urls)\<rparr>)"
  using filterE_total[of "isValidUrl newURL" "\<lambda>u. \<not> isl (newURL u)"
      "\<lambda>u st. if isl (newURL u) then st\<lparr>console := console st @ [''Invalid URL: '' @ u]\<rparr> else st"
      urls st, OF isValidUrl_eq]
  by (simp only: fold_warnings)

text \<open>
  C9. Whatever \<^verbatim>\<open>new URL\<close> accepts, the handler ends without an exception; the
  backgrounds it stores and hands to \<^verbatim>\<open>saveData\<close> are the trimmed entries that
  \<^verbatim>\<open>new URL\<close> accepts, in their order, and each of the others is reported by one warning.
\<close>

theorem invalid_urls_are_dropped:
  "backgrounds_onChange_v3 newURL value st =
     Inr (st\<lparr>console := console st @
                 map (\<lambda>u. ''Invalid URL: '' @ u)
                   (filter (\<lambda>u. isl (newURL u)) (map trim (split CHR '','' value))),
              settings := (settings st)
                \<lparr>backgrounds := filter (\<lambda>u. \<not> isl (newURL u)) (map trim (split CHR '','' value))\<rparr>,
              saved := Some ((settings st)
                \<lparr>backgrounds := filter (\<lambda>u. \<not> isl (newURL u)) (map trim (split CHR '','' value))\<rparr>)\<rparr>)"
  by (simp add: backgrounds_onChange_v3_def filterE_isValidUrl saveSettings_def Let_def)

text \<open>An input with one bad entry between two good ones.\<close>

theorem invalid_urls_are_dropped_witness:
  "backgrounds_onChange_v3 schemeOnly ''https://a.example/1.jpg, nope ,https://b.example/2.jpg''
     (newPlugin sampleSettings viewDocument 1) =
   Inr ((newPlugin sampleSettings viewDocument 1)
          \<lparr>console := [''Invalid URL: nope''],
           settings := sampleSettings
             \<lparr>backgrounds := [''https://a.example/1.jpg'', ''https://b.example/2.jpg'']\<rparr>,
           saved := Some (sampleSettings
             \<lparr>backgrounds := [''https://a.example/1.jpg'', ''https://b.example/2.jpg'']\<rparr>)\<rparr>)"
proof -
  have urls: "map trim (split CHR '','' ''https://a.example/1.jpg, nope ,https://b.example/2.jpg'') =
              [''https://a.example/1.jpg'', ''nope'', ''https://b.example/2.jpg'']"
    by code_simp
  have bad: "filter (\<lambda>u. isl (schemeOnly u))
               [''https://a.example/1.jpg'', ''nope'', ''https://b.example/2.jpg''] = [''nope'']"
    by (simp add: schemeOnly_def)
  have ok: "filter (\<lambda>u. \<not> isl (schemeOnly u))
               [''https://a.example/1.jpg'', ''nope'', ''https://b.example/2.jpg''] =
            [''https://a.example/1.jpg'', ''https://b.example/2.jpg'']"
    by (simp add: schemeOnly_def)
  show ?thesis
    using invalid_urls_are_dropped[of schemeOnly
        "''https://a.example/1.jpg, nope ,https://b.example/2.jpg''"
        "newPlugin sampleSettings viewDocument 1"]
    unfolding urls bad ok by (simp add: newPlugin_def)
qed

section \<open>C10: the interval field\<close>



lemma timers_updateBackgrounds_v5 [simp]:
  "timers (updateBackgrounds_v5 st) = timers st"
  "intervalId (updateBackgrounds_v5 st) = intervalId st"
  "settings (updateBackgrounds_v5 st) = settings st"
  "saved (updateBackgrounds_v5 st) = saved st"
  "nextTimerId (updateBackgrounds_v5 st) = nextTimerId st"
  by (simp_all add: updateBackgrounds_v5_def Let_def)



text \<open>Some values of \<^verbatim>\<open>parseInt\<close>.\<close>

lemma parseInt_examples:
  "parseInt ''3000'' = Num 3000"
  "parseInt ''  42px'' = Num 42"
  "parseInt ''-7'' = Num (- 7)"
  "parseInt ''0x1F'' = Num 31"
  "parseInt ''1e3'' = Num 1"
  "parseInt '' '' = NaN"
  by code_simp+

section \<open>C4: one timer at most\<close>

lemma tidyTimers_start:
  "tidyTimers st \<Longrightarrow> tidyTimers (startBackgroundChange_v5 (clearInterval (intervalId st) st))"
  by (auto simp: tidyTimers_def startBackgroundChange_v5_def clearInterval_def setInterval_def
        filter_empty_conv Let_def)

lemma tidyTimers_fields:
  "timers st' = timers st \<Longrightarrow> intervalId st' = intervalId st \<Longrightarrow> tidyTimers st \<Longrightarrow> tidyTimers st'"
  by (simp add: tidyTimers_def)

lemma tidyTimers_clear: "tidyTimers st \<Longrightarrow> tidyTimers (clearInterval (intervalId st) st)"
proof -
  assume "tidyTimers st"
  then have "filter (\<lambda>(i, period). Some i \<noteq> intervalId st) (timers st) = []"
    by (auto simp: tidyTimers_def filter_empty_conv)
  then show ?thesis by (simp add: tidyTimers_def clearInterval_def)
qed

lemma tidyTimers_onload_v5: "tidyTimers (onload_v5 (newPlugin loaded doc n))"
  by (simp add: tidyTimers_def onload_v5_def startBackgroundChange_v5_def setInterval_def newPlugin_def)

lemma tidyTimers_onload_v2: "tidyTimers (onload_v2 (newPlugin loaded doc n))"
  by (simp add: tidyTimers_def onload_v2_def startBackgroundChange_v2_def setInterval_def newPlugin_def)

lemma tidyTimers_step_v5: "tidyTimers st \<Longrightarrow> tidyTimers (step_v5 ev st)"
proof (cases ev)
  case (TimerFires i)
  assume "tidyTimers st"
  then show ?thesis
    by (auto simp: TimerFires intervalCallback_v5_def Let_def elim!: tidyTimers_fields[rotated 2])
next
  case (IntervalInput v)
  assume "tidyTimers st"
  then show ?thesis
    by (simp add: IntervalInput interval_onChange_v5_begin_def saveSettings_def tidyTimers_def)
next
  case IntervalSaved
  assume "tidyTimers st"
  from tidyTimers_start[OF this] show ?thesis
    by (auto simp: IntervalSaved interval_onChange_v5_resume_def Let_def
          elim!: tidyTimers_fields[rotated 2])
next
  case (BackgroundsInput v)
  assume "tidyTimers st"
  then show ?thesis
    by (simp add: BackgroundsInput backgrounds_onChange_v5_begin_def saveSettings_def tidyTimers_def)
next
  case (OpacityInput sl v)
  assume "tidyTimers st"
  then show ?thesis
    by (simp add: OpacityInput opacity_onChange_v5_begin_def saveSettings_def tidyTimers_def Let_def)
next
  case Restyle
  assume "tidyTimers st"
  then show ?thesis
    by (auto simp: Restyle elim!: tidyTimers_fields[rotated 2])
next
  case Unload
  assume "tidyTimers st"
  then show ?thesis
    by (simp add: Unload onunload_v5_def tidyTimers_clear)
qed

lemma tidyTimers_step_v2: "tidyTimers st \<Longrightarrow> tidyTimers (step_v2 ev st)"
proof (cases ev)
  case (TimerFires i)
  assume "tidyTimers st"
  then show ?thesis
    by (auto simp: TimerFires intervalCallback_v2_def Let_def tidyTimers_def split: prod.splits)
next
  case Unload
  assume "tidyTimers st"
  then show ?thesis
    by (simp add: Unload onunload_v2_def tidyTimers_clear)
qed (simp_all add: interval_onChange_v2_def backgrounds_onChange_v2_begin_def restyle_v2_def
       saveSettings_def tidyTimers_def)

lemma tidyTimers_fold:
  assumes "\<And>ev st. tidyTimers st \<Longrightarrow> tidyTimers (step ev st)"
  shows "tidyTimers st \<Longrightarrow> tidyTimers (fold step evs st)"
  by (induction evs arbitrary: st) (simp_all add: assms)

lemma tidyTimers_run_v5: "tidyTimers (run_v5 loaded doc n evs)"
  unfolding run_v5_def by (rule tidyTimers_fold[OF tidyTimers_step_v5 tidyTimers_onload_v5])

lemma tidyTimers_run_v2: "tidyTimers (run_v2 loaded doc n evs)"
  unfolding run_v2_def by (rule tidyTimers_fold[OF tidyTimers_step_v2 tidyTimers_onload_v2])

lemma timers_after_interval_onChange_v5:
  "tidyTimers st \<Longrightarrow>
   timers (interval_onChange_v5 value st) = [(nextTimerId st, parseInt value)]"
  by (auto simp: tidyTimers_def interval_onChange_v5_def interval_onChange_v5_begin_def
        interval_onChange_v5_resume_def startBackgroundChange_v5_def saveSettings_def
        setInterval_def clearInterval_def filter_empty_conv Let_def)

text \<open>
  C4. Whatever the host makes a loaded instance do, and in whatever order (an unload, or
  the resumption of a handler after its save, at any point), the instance has at most one
  active timer. The interval handler of part_001 leaves exactly one: the one it has just
  started, with the period just entered; the timer that ran before is cancelled.
\<close>

theorem at_most_one_timer:
  "length (timers (run_v5 loaded doc n evs)) \<le> 1
   \<and> length (timers (run_v2 loaded doc n evs)) \<le> 1
   \<and> timers (interval_onChange_v5 value (run_v5 loaded doc n evs)) =
       [(nextTimerId (run_v5 loaded doc n evs), parseInt value)]
   \<and> timers (step_v5 IntervalSaved (run_v5 loaded doc n evs)) =
       [(nextTimerId (run_v5 loaded doc n evs), interval (settings (run_v5 loaded doc n evs)))]"
proof -
  have 5: "tidyTimers (run_v5 loaded doc n evs)" by (rule tidyTimers_run_v5)
  have 2: "tidyTimers (run_v2 loaded doc n evs)" by (rule tidyTimers_run_v2)
  have "timers (step_v5 IntervalSaved (run_v5 loaded doc n evs)) =
       [(nextTimerId (run_v5 loaded doc n evs), interval (settings (run_v5 loaded doc n evs)))]"
    using 5
    by (auto simp: tidyTimers_def interval_onChange_v5_resume_def startBackgroundChange_v5_def
          setInterval_def clearInterval_def filter_empty_conv Let_def)
  then show ?thesis
    using 5 2 timers_after_interval_onChange_v5[OF 5] by (simp add: tidyTimers_def)
qed

theorem at_most_one_timer_witness:
  "timers (run_v5 sampleSettings viewDocument 1 [IntervalInput ''500'', TimerFires 1, IntervalSaved]) =
     [(2, Num 500)]
   \<and> timers (interval_onChange_v5 ''250''
        (run_v5 sampleSettings viewDocument 1 [IntervalInput ''500'', TimerFires 1, IntervalSaved])) =
     [(3, Num 250)]"
proof -
  have a: "timers (run_v5 sampleSettings viewDocument 1 [IntervalInput ''500'', TimerFires 1, IntervalSaved]) =
     [(2, Num 500)]"
    by code_simp
  have b: "nextTimerId (run_v5 sampleSettings viewDocument 1 [IntervalInput ''500'', TimerFires 1, IntervalSaved]) = 3"
    by code_simp
  have c: "parseInt ''250'' = Num 250"
    by code_simp
  show ?thesis
    using a at_most_one_timer[of sampleSettings viewDocument 1
        "[IntervalInput ''500'', TimerFires 1, IntervalSaved]" "''250''"]
    unfolding b c by simp
qed

text \<open>
  The cancellation is the handler's: \<^verbatim>\<open>startBackgroundChange\<close> alone starts a timer
  beside the one that runs. No path of the plugin calls it so.
\<close>

lemma startBackgroundChange_alone_adds_a_timer:
  "length (timers (startBackgroundChange_v5 (onload_v5 (newPlugin loaded doc n)))) = 2"
  by (simp add: onload_v5_def startBackgroundChange_v5_def setInterval_def newPlugin_def)

section \<open>C7: what the random draw decides\<close>

lemma updateBackgrounds_v3_fold:
  "updateBackgrounds_v3 s rnd doc = fold (step_v3 s rnd) (enumerate 0 (selectors_v3 s)) doc"
  by (simp add: updateBackgrounds_v3_def forEach_def step_v3_def)

lemma mapStyle_classList_add:
  "mapStyle h (modify i (classList_add c) t) = modify i (classList_add c) (mapStyle h t)"
  by (rule mapStyle_modify) (simp add: classList_add_def)

lemma mapStyle_mark:
  "mapStyle h (forEach L (\<lambda>el. modify el (classList_add c)) t) =
   forEach L (\<lambda>el. modify el (classList_add c)) (mapStyle h t)"
  by (induction L arbitrary: t) (simp_all add: forEach_def mapStyle_classList_add)

lemma delete_assign_backgroundImage:
  "AList.delete ''backgroundImage'' (assign [(''backgroundImage'', v)] st) =
   id (AList.delete ''backgroundImage'' st)"
  by (simp add: assign_def delete_update_same)

lemma withoutBackgroundImage_step_v3:
  "withoutBackgroundImage (step_v3 s rnd (k, sel, op) doc) =
   step_v3_plain (sel, op) (withoutBackgroundImage doc)"
proof -
  let ?h = "AList.delete ''backgroundImage''"
  let ?marked = "forEach (querySelectorAll sel doc) (\<lambda>el. modify el (classList_add ''dynamic-backgrounds'')) doc"
  have "mapStyle ?h (applyBackgroundAndOverlay_v3 s (rnd k) (querySelectorAll sel doc) op ?marked) =
        forEach (querySelectorAll sel doc)
          (styleElement id ''dynamic-backgrounds-overlay'' (\<lambda>n. mapStyle ?h (overlay_v3 op n)))
          (mapStyle ?h ?marked)"
    unfolding applyBackgroundAndOverlay_v3_def Let_def
    by (rule mapStyle_forEach) (rule delete_assign_backgroundImage)
  then show ?thesis
    by (simp add: step_v3_def step_v3_plain_def withoutBackgroundImage_def Let_def mapStyle_mark)
qed

lemma withoutBackgroundImage_fold_v3:
  "withoutBackgroundImage (fold (step_v3 s rnd) (enumerate n sels) doc) =
   fold step_v3_plain sels (withoutBackgroundImage doc)"
proof (induction sels arbitrary: n doc)
  case Nil
  then show ?case by simp
next
  case (Cons a sels)
  obtain sel op where a: "a = (sel, op)" by (cases a)
  show ?case
    by (simp add: a Cons withoutBackgroundImage_step_v3)
qed

text \<open>
  C7, as amended. In the random variant two passes over the same document with equal
  settings give the same document up to the background images: the same tree, the same
  marker classes, the same overlays with the same colours. The background image is drawn
  by \<^verbatim>\<open>Math.random\<close> for each selector.
\<close>

theorem random_draw_decides_only_the_image:
  "withoutBackgroundImage (updateBackgrounds_v3 s rnd doc) =
   withoutBackgroundImage (updateBackgrounds_v3 s rnd' doc)"
  by (simp add: updateBackgrounds_v3_fold withoutBackgroundImage_fold_v3)

theorem random_draw_decides_only_the_image_witness:
  "withoutBackgroundImage (updateBackgrounds_v3 sampleSettings drawZero viewDocument) =
   withoutBackgroundImage (updateBackgrounds_v3 sampleSettings drawHalf viewDocument)
   \<and> withoutBackgroundImage (updateBackgrounds_v3 sampleSettings drawZero viewDocument) =
      Element 0 [] []
        [Element 1 [''view-content'', ''dynamic-backgrounds''] []
           [Element 2 [''dynamic-backgrounds-overlay'']
              [(''backgroundColor'', WhiteAlpha (Num (5 / 10)))] []]]"
proof -
  have "withoutBackgroundImage (updateBackgrounds_v3 sampleSettings drawZero viewDocument) =
      Element 0 [] []
        [Element 1 [''view-content'', ''dynamic-backgrounds''] []
           [Element 2 [''dynamic-backgrounds-overlay'']
              [(''backgroundColor'', WhiteAlpha (Num (5 / 10)))] []]]"
    by code_simp
  then show ?thesis
    using random_draw_decides_only_the_image[of sampleSettings drawZero viewDocument drawHalf]
    by simp
qed

text \<open>
  C7, as stated, fails: with the same document and the same settings, a draw of 0 gives
  the content the first background and a draw of one half the second.
\<close>

theorem random_background_counterexample:
  "stylesOf 1 (updateBackgrounds_v3 sampleSettings drawZero viewDocument) \<noteq>
   stylesOf 1 (updateBackgrounds_v3 sampleSettings drawHalf viewDocument)"
  by code_simp

lemma random_background_values:
  "stylesOf 1 (updateBackgrounds_v3 sampleSettings drawZero viewDocument) =
     [[(''backgroundImage'', Lit (url_template (Some ''https://example.com/image1.jpg'')))]]"
  "stylesOf 1 (updateBackgrounds_v3 sampleSettings drawHalf viewDocument) =
     [[(''backgroundImage'', Lit (url_template (Some ''https://example.com/image2.jpg'')))]]"
  by code_simp+

section \<open>C2: an overlay that exists keeps its colour\<close>

lemma stylesOf_Element [simp]:
  "stylesOf j (Element k cs st ch) = (if k = j then [st] else []) @ concat (map (stylesOf j) ch)"
  by (simp add: stylesOf_def[abs_def] filter_concat map_concat comp_def)

lemma stylesOf_overlay: "overlayLike cls n ov \<Longrightarrow> j \<noteq> n \<Longrightarrow> stylesOf j ov = []"
  by (cases ov) (auto simp: overlayLike_def)

lemma stylesOf_modify:
  assumes "overlayLike cls n ov" "j \<noteq> n" "j \<noteq> i"
  shows "stylesOf j (modify i (styleBody g cls ov) t) = stylesOf j t"
proof (induction t)
  case (Element k cs st ch)
  have ch: "map (stylesOf j) (map (modify i (styleBody g cls ov)) ch) = map (stylesOf j) ch"
    using Element by simp
  show ?case
  proof (cases "i = k")
    case True
    then show ?thesis
      using ch stylesOf_overlay[OF assms(1,2)] assms(3) by (simp add: Let_def del: map_map)
  next
    case False
    then show ?thesis using ch by (simp add: Let_def del: map_map)
  qed
qed

lemma stylesOf_styleElement:
  assumes "\<And>n. overlayLike cls n (mk n)" "j \<in> set (ids t)" "j \<noteq> i"
  shows "stylesOf j (styleElement g cls mk i t) = stylesOf j t"
proof -
  have "j \<noteq> fresh t" using fresh_gt[OF assms(2)] by simp
  with assms(1)[of "fresh t"] show ?thesis
    unfolding styleElement_def using assms(3) by (rule stylesOf_modify)
qed

lemma stylesOf_forEach:
  assumes mk: "\<And>n. overlayLike cls n (mk n)"
  shows "j \<in> set (ids t) \<Longrightarrow> j \<notin> set L \<Longrightarrow>
         stylesOf j (forEach L (styleElement g cls mk) t) = stylesOf j t"
proof (induction L arbitrary: t)
  case Nil
  then show ?case by (simp add: forEach_def)
next
  case (Cons i L)
  have 1: "stylesOf j (styleElement g cls mk i t) = stylesOf j t"
    using Cons.prems by (intro stylesOf_styleElement mk) auto
  have 2: "j \<in> set (ids (styleElement g cls mk i t))"
    using Cons.prems(1) ids_styleElement by blast
  show ?case
    using Cons.IH[OF 2] Cons.prems(2) 1 by (simp add: forEach_def)
qed

lemma ids_forEach: "set (ids t) \<subseteq> set (ids (forEach L (styleElement g cls mk) t))"
proof (induction L arbitrary: t)
  case Nil
  then show ?case by (simp add: forEach_def)
next
  case (Cons i L)
  show ?case
    using Cons[of "styleElement g cls mk i t"] ids_styleElement[of t g cls mk i]
    by (auto simp: forEach_def)
qed

lemma stylesOf_restyleEach:
  assumes "\<And>sel g mk. (sel, g, mk) \<in> set ts \<Longrightarrow> sel \<noteq> cls \<and> (\<forall>n. overlayLike cls n (mk n))"
    and "\<And>sel g mk. (sel, g, mk) \<in> set ts \<Longrightarrow> j \<notin> set (querySelectorAll sel t)"
    and "j \<in> set (ids t)"
  shows "stylesOf j (restyleEach cls ts t) = stylesOf j t"
  using assms
proof (induction ts arbitrary: t)
  case Nil
  then show ?case by simp
next
  case (Cons a ts)
  obtain sel g mk where a: "a = (sel, g, mk)" by (cases a)
  let ?t1 = "forEach (querySelectorAll sel t) (styleElement g cls mk) t"
  have mk: "\<And>n. overlayLike cls n (mk n)"
    using Cons.prems(1)[of sel g mk] by (simp add: a)
  have 1: "stylesOf j ?t1 = stylesOf j t"
    using Cons.prems(2)[of sel g mk] Cons.prems(3) by (intro stylesOf_forEach mk) (auto simp: a)
  have 2: "j \<in> set (ids ?t1)"
    using Cons.prems(3) ids_forEach by blast
  have 3: "\<And>sel' g' mk'. (sel', g', mk') \<in> set ts \<Longrightarrow> j \<notin> set (querySelectorAll sel' ?t1)"
  proof -
    fix sel' g' mk' assume m: "(sel', g', mk') \<in> set ts"
    then have "sel' \<noteq> cls" using Cons.prems(1)[of sel' g' mk'] by simp
    then have "querySelectorAll sel' ?t1 = querySelectorAll sel' t"
      using mk by (intro querySelectorAll_forEach) auto
    then show "j \<notin> set (querySelectorAll sel' ?t1)"
      using Cons.prems(2)[of sel' g' mk'] m by simp
  qed
  have "stylesOf j (restyleEach cls ts ?t1) = stylesOf j ?t1"
    by (rule Cons.IH) (use Cons.prems(1) 3 2 in auto)
  then show ?case by (simp add: a 1)
qed

lemma same_id_same_element:
  assumes "wellformed t" "o' \<in> set (elements t)" "e \<in> set (elements t)" "eid e = eid o'"
  shows "e = o'"
  using assms by (auto simp: wellformed_def ids_def distinct_map dest: inj_onD)

lemma filter_same_key:
  "distinct (map f xs) \<Longrightarrow> x \<in> set xs \<Longrightarrow> filter (\<lambda>y. f y = f x) xs = [x]"
proof (induction xs)
  case Nil
  then show ?case by simp
next
  case (Cons a xs)
  show ?case
  proof (cases "a = x")
    case True
    then have "\<forall>y\<in>set xs. f y \<noteq> f x"
      using Cons.prems(1) by (metis distinct.simps(2) image_eqI list.simps(9) set_map)
    then have "filter (\<lambda>y. f y = f x) xs = []"
      by (simp add: filter_empty_conv)
    then show ?thesis using True by simp
  next
    case False
    then have "f a \<noteq> f x" using Cons.prems by auto
    then show ?thesis using Cons False by simp
  qed
qed

lemma stylesOf_wellformed:
  "wellformed t \<Longrightarrow> o' \<in> set (elements t) \<Longrightarrow> stylesOf (eid o') t = [style o']"
  by (simp add: stylesOf_def wellformed_def ids_def filter_same_key)

lemma not_matched:
  assumes "wellformed t" "o' \<in> set (elements t)" "sel \<notin> set (classList o')"
  shows "eid o' \<notin> set (querySelectorAll sel t)"
proof
  assume "eid o' \<in> set (querySelectorAll sel t)"
  then obtain e where e: "e \<in> set (elements t)" "hasClass sel e" "eid e = eid o'"
    by (auto simp: querySelectorAll_def)
  then have "e = o'" using assms(1,2) by (intro same_id_same_element)
  then show False using e(2) assms(3) by (simp add: hasClass_def)
qed

lemma updateBackgrounds_v5_restyleEach:
  "document (updateBackgrounds_v5 st) =
     restyleEach ''background-overlay'' (targets_v5 st) (document st)"
  by (simp add: updateBackgrounds_v5_def applyBackgroundAndOverlay_v5_def Let_def targets_v5_def)

lemma overlay_kept_v5:
  assumes "wellformed (document st)" "o' \<in> set (elements (document st))"
    "classList o' = [''background-overlay'']"
  shows "stylesOf (eid o') (document (updateBackgrounds_v5 st)) = [style o']"
proof -
  have "stylesOf (eid o') (restyleEach ''background-overlay'' (targets_v5 st) (document st)) =
        stylesOf (eid o') (document st)"
  proof (rule stylesOf_restyleEach)
    fix sel g mk assume m: "(sel, g, mk) \<in> set (targets_v5 st)"
    then show "sel \<noteq> ''background-overlay'' \<and> (\<forall>n. overlayLike ''background-overlay'' n (mk n))"
      by (auto simp: targets_v5_def Let_def overlayLike_alpha)
    have "sel \<notin> set (classList o')"
      using m assms(3) by (auto simp: targets_v5_def Let_def)
    then show "eid o' \<notin> set (querySelectorAll sel (document st))"
      using assms(1,2) by (intro not_matched)
  next
    show "eid o' \<in> set (ids (document st))"
      using assms(2) by (auto simp: ids_def)
  qed
  then show ?thesis
    using stylesOf_wellformed[OF assms(1,2)] by (simp add: updateBackgrounds_v5_restyleEach)
qed


lemma classList_add_Element [simp]:
  "classList_add c (Element k cs st ch) = Element k (if c \<in> set cs then cs else cs @ [c]) st ch"
  by (simp add: classList_add_def)

lemma stylesOf_classList_add [simp]: "stylesOf j (modify i (classList_add c) t) = stylesOf j t"
proof (induction t)
  case (Element k cs st ch)
  have "map (stylesOf j) (map (modify i (classList_add c)) ch) = map (stylesOf j) ch"
    using Element by simp
  then show ?case by (cases "i = k") (simp_all add: Let_def del: map_map)
qed

lemma ids_classList_add [simp]: "ids (modify i (classList_add c) t) = ids t"
proof (induction t)
  case (Element k cs st ch)
  have "map ids (map (modify i (classList_add c)) ch) = map ids ch"
    using Element by simp
  then show ?case by (cases "i = k") (simp_all add: Let_def del: map_map)
qed

lemma querySelectorAll_classList_add:
  "sel \<noteq> c \<Longrightarrow> querySelectorAll sel (modify i (classList_add c) t) = querySelectorAll sel t"
proof (induction t)
  case (Element k cs st ch)
  have "map (querySelectorAll sel) (map (modify i (classList_add c)) ch) = map (querySelectorAll sel) ch"
    using Element by simp
  then show ?case using Element.prems by (cases "i = k") (simp_all add: Let_def del: map_map)
qed

lemma mark_facts:
  "stylesOf j (forEach L (\<lambda>el. modify el (classList_add c)) t) = stylesOf j t"
  "ids (forEach L (\<lambda>el. modify el (classList_add c)) t) = ids t"
  "sel \<noteq> c \<Longrightarrow>
   querySelectorAll sel (forEach L (\<lambda>el. modify el (classList_add c)) t) = querySelectorAll sel t"
  by (induction L arbitrary: t) (simp_all add: forEach_def querySelectorAll_classList_add)

lemma step_v3_facts:
  assumes "j \<in> set (ids doc)"
  shows "j \<notin> set (querySelectorAll sel doc) \<Longrightarrow>
         stylesOf j (step_v3 s rnd (k, sel, op) doc) = stylesOf j doc"
    and "j \<in> set (ids (step_v3 s rnd (k, sel, op) doc))"
    and "sel' \<noteq> ''dynamic-backgrounds'' \<Longrightarrow> sel' \<noteq> ''dynamic-backgrounds-overlay'' \<Longrightarrow>
         querySelectorAll sel' (step_v3 s rnd (k, sel, op) doc) = querySelectorAll sel' doc"
proof -
  let ?m = "forEach (querySelectorAll sel doc) (\<lambda>el. modify el (classList_add ''dynamic-backgrounds'')) doc"
  have j: "j \<in> set (ids ?m)" using assms by (simp add: mark_facts)
  show "j \<notin> set (querySelectorAll sel doc) \<Longrightarrow>
         stylesOf j (step_v3 s rnd (k, sel, op) doc) = stylesOf j doc"
    using stylesOf_forEach[of "''dynamic-backgrounds-overlay''" "overlay_v3 op" j ?m, OF overlayLike_v3 j]
    by (simp add: step_v3_def applyBackgroundAndOverlay_v3_def Let_def mark_facts)
  have "set (ids ?m) \<subseteq>
        set (ids (applyBackgroundAndOverlay_v3 s (rnd k) (querySelectorAll sel doc) op ?m))"
    unfolding applyBackgroundAndOverlay_v3_def Let_def by (rule ids_forEach)
  then show "j \<in> set (ids (step_v3 s rnd (k, sel, op) doc))"
    using j by (auto simp: step_v3_def Let_def)
  show "sel' \<noteq> ''dynamic-backgrounds'' \<Longrightarrow> sel' \<noteq> ''dynamic-backgrounds-overlay'' \<Longrightarrow>
         querySelectorAll sel' (step_v3 s rnd (k, sel, op) doc) = querySelectorAll sel' doc"
    using querySelectorAll_forEach[of "''dynamic-backgrounds-overlay''" "overlay_v3 op" sel', OF overlayLike_v3]
    by (simp add: step_v3_def applyBackgroundAndOverlay_v3_def Let_def mark_facts)
qed

lemma stylesOf_fold_v3:
  assumes "\<And>sel op. (sel, op) \<in> set sels \<Longrightarrow>
             sel \<noteq> ''dynamic-backgrounds'' \<and> sel \<noteq> ''dynamic-backgrounds-overlay''"
    and "\<And>sel op. (sel, op) \<in> set sels \<Longrightarrow> j \<notin> set (querySelectorAll sel doc)"
    and "j \<in> set (ids doc)"
  shows "stylesOf j (fold (step_v3 s rnd) (enumerate n sels) doc) = stylesOf j doc"
  using assms
proof (induction sels arbitrary: n doc)
  case Nil
  then show ?case by simp
next
  case (Cons a sels)
  obtain sel op where a: "a = (sel, op)" by (cases a)
  let ?d = "step_v3 s rnd (n, sel, op) doc"
  have 1: "stylesOf j ?d = stylesOf j doc"
    using Cons.prems(2)[of sel op] by (intro step_v3_facts(1) Cons.prems(3)) (simp add: a)
  have 2: "j \<in> set (ids ?d)"
    by (rule step_v3_facts(2)[OF Cons.prems(3)])
  have 3: "\<And>sel' op'. (sel', op') \<in> set sels \<Longrightarrow> j \<notin> set (querySelectorAll sel' ?d)"
  proof -
    fix sel' op' assume m: "(sel', op') \<in> set sels"
    then have "querySelectorAll sel' ?d = querySelectorAll sel' doc"
      using Cons.prems(1)[of sel' op'] by (intro step_v3_facts(3)[OF Cons.prems(3)]) auto
    then show "j \<notin> set (querySelectorAll sel' ?d)"
      using Cons.prems(2)[of sel' op'] m by simp
  qed
  have "stylesOf j (fold (step_v3 s rnd) (enumerate (Suc n) sels) ?d) = stylesOf j ?d"
    by (rule Cons.IH) (use Cons.prems(1) 3 2 in auto)
  then show ?case by (simp add: a 1)
qed

lemma overlay_kept_v3:
  assumes "wellformed doc" "o' \<in> set (elements doc)"
    "classList o' = [''dynamic-backgrounds-overlay'']"
  shows "stylesOf (eid o') (updateBackgrounds_v3 s rnd doc) = [style o']"
proof -
  have "stylesOf (eid o') (fold (step_v3 s rnd) (enumerate 0 (selectors_v3 s)) doc) =
        stylesOf (eid o') doc"
  proof (rule stylesOf_fold_v3)
    fix sel op assume m: "(sel, op) \<in> set (selectors_v3 s)"
    then show "sel \<noteq> ''dynamic-backgrounds'' \<and> sel \<noteq> ''dynamic-backgrounds-overlay''"
      by (auto simp: selectors_v3_def)
    have "sel \<notin> set (classList o')"
      using m assms(3) by (auto simp: selectors_v3_def)
    then show "eid o' \<notin> set (querySelectorAll sel doc)"
      using assms(1,2) by (intro not_matched)
  next
    show "eid o' \<in> set (ids doc)"
      using assms(2) by (auto simp: ids_def)
  qed
  then show ?thesis
    using stylesOf_wellformed[OF assms(1,2)] by (simp add: updateBackgrounds_v3_fold)
qed

lemma covered_element_keeps_shape:
  assumes "covered cls doc i"
  shows "shape (styleElement g cls mk i doc) = shape doc"
proof -
  have "shape (styleElement g cls mk i doc) =
        styleElement id cls (\<lambda>n. shape (mk n)) i (shape doc)"
    unfolding shape_def by (rule mapStyle_styleElement) simp
  also have "\<dots> = shape doc"
    using assms by (intro styleElement_id) (simp_all add: covered_shape settled_def)
  finally show ?thesis .
qed

text \<open>
  C2, as amended. The body run on a matched element that has an overlay below it
  appends nothing, and a pass leaves every overlay there is as it was: its inline style,
  the colour with it, is the one it got when it was made, whatever the settings say now.
\<close>

theorem existing_overlay_keeps_its_colour:
  "(covered cls doc i \<longrightarrow> shape (styleElement g cls mk i doc) = shape doc)
   \<and> (wellformed doc \<and> ov \<in> set (elements doc) \<and> classList ov = [''dynamic-backgrounds-overlay'']
        \<longrightarrow> stylesOf (eid ov) (updateBackgrounds_v3 s rnd doc) = [style ov])
   \<and> (wellformed (document st) \<and> ov' \<in> set (elements (document st))
        \<and> classList ov' = [''background-overlay'']
        \<longrightarrow> stylesOf (eid ov') (document (updateBackgrounds_v5 st)) = [style ov'])"
  using covered_element_keeps_shape overlay_kept_v3 overlay_kept_v5 by blast

theorem existing_overlay_keeps_its_colour_witness:
  "wellformed (updateBackgrounds_v3 sampleSettings drawZero viewDocument)
   \<and> Element 2 [''dynamic-backgrounds-overlay''] [(''backgroundColor'', WhiteAlpha (Num (5 / 10)))] []
       \<in> set (elements (updateBackgrounds_v3 sampleSettings drawZero viewDocument))
   \<and> covered ''dynamic-backgrounds-overlay'' (updateBackgrounds_v3 sampleSettings drawZero viewDocument) 1
   \<and> stylesOf 2 (updateBackgrounds_v3 brighterSettings drawZero
        (updateBackgrounds_v3 sampleSettings drawZero viewDocument)) =
       [[(''backgroundColor'', WhiteAlpha (Num (5 / 10)))]]
   \<and> shape (styleElement id ''dynamic-backgrounds-overlay'' (overlay_v3 (Num (9 / 10))) 1
        (updateBackgrounds_v3 sampleSettings drawZero viewDocument)) =
       shape (updateBackgrounds_v3 sampleSettings drawZero viewDocument)"
proof -
  let ?d = "updateBackgrounds_v3 sampleSettings drawZero viewDocument"
  let ?o = "Element 2 [''dynamic-backgrounds-overlay''] [(''backgroundColor'', WhiteAlpha (Num (5 / 10)))] []"
  have a: "wellformed ?d" by code_simp
  have b: "?o \<in> set (elements ?d)" by code_simp
  have c: "covered ''dynamic-backgrounds-overlay'' ?d 1" by code_simp
  show ?thesis
    using a b c
      existing_overlay_keeps_its_colour[of "''dynamic-backgrounds-overlay''" ?d 1 id
        "overlay_v3 (Num (9 / 10))" ?o brighterSettings drawZero]
    by simp
qed

text \<open>
  C2, as stated, fails: the overlay of the content is made while the opacity is 0.5; the
  setting then becomes 0.9, and after the next pass the overlay still has 0.5.
\<close>

theorem overlay_alpha_not_updated_counterexample:
  "stylesOf 2 (updateBackgrounds_v3 brighterSettings drawZero
      (updateBackgrounds_v3 sampleSettings drawZero viewDocument)) =
     [[(''backgroundColor'', WhiteAlpha (Num (5 / 10)))]]
   \<and> viewContent (opacitySettings brighterSettings) = Num (9 / 10)
   \<and> querySelectorAll ''dynamic-backgrounds-overlay''
        (updateBackgrounds_v3 brighterSettings drawZero
           (updateBackgrounds_v3 sampleSettings drawZero viewDocument)) = [2]"
  by code_simp

section \<open>C5: what the teardown removes\<close>

lemma removeBackgrounds_stripElement:
  "removeBackgrounds doc =
     forEach (querySelectorAll ''dynamic-backgrounds'' doc) (\<lambda>el. modify el stripElement) doc"
  by (simp add: removeBackgrounds_def stripElement_def[abs_def])

lemma querySelectorAll_removeNode:
  "set (querySelectorAll c (removeNode x u)) \<subseteq> set (querySelectorAll c u)"
proof (induction u)
  case (Element k cs st ch)
  have "\<And>y. y \<in> set (filter (\<lambda>c. eid c \<noteq> x) ch) \<Longrightarrow>
          set (querySelectorAll c (removeNode x y)) \<subseteq> set (querySelectorAll c y)"
    using Element by simp
  then have "(\<Union>y\<in>set (filter (\<lambda>c. eid c \<noteq> x) ch). set (querySelectorAll c (removeNode x y))) \<subseteq>
             (\<Union>y\<in>set ch. set (querySelectorAll c y))"
    by fastforce
  then show ?case by (auto simp del: set_filter)
qed

lemma stripElement_cases:
  "stripElement (Element k cs st ch) =
     Element k (filter (\<lambda>x. x \<noteq> ''dynamic-backgrounds'') cs)
       (AList.update ''backgroundImage'' (Lit []) st) ch
   \<or> (\<exists>x. stripElement (Element k cs st ch) =
         removeNode x (Element k (filter (\<lambda>x. x \<noteq> ''dynamic-backgrounds'') cs)
           (AList.update ''backgroundImage'' (Lit []) st) ch))"
proof (cases "find (hasClass ''dynamic-backgrounds-overlay'') (concat (map elements ch))")
  case None
  then show ?thesis
    by (simp add: stripElement_def withStyle_def classList_remove_def Let_def del: removeNode.simps)
next
  case (Some ov)
  then have "stripElement (Element k cs st ch) =
         removeNode (eid ov) (Element k (filter (\<lambda>x. x \<noteq> ''dynamic-backgrounds'') cs)
           (AList.update ''backgroundImage'' (Lit []) st) ch)"
    by (simp add: stripElement_def withStyle_def classList_remove_def Let_def del: removeNode.simps)
  then show ?thesis by blast
qed

lemma querySelectorAll_stripElement:
  "set (querySelectorAll ''dynamic-backgrounds'' (stripElement (Element k cs st ch))) \<subseteq>
   (\<Union>c\<in>set ch. set (querySelectorAll ''dynamic-backgrounds'' c))"
proof -
  let ?e = "Element k (filter (\<lambda>x. x \<noteq> ''dynamic-backgrounds'') cs)
              (AList.update ''backgroundImage'' (Lit []) st) ch"
  have e: "set (querySelectorAll ''dynamic-backgrounds'' ?e) =
           (\<Union>c\<in>set ch. set (querySelectorAll ''dynamic-backgrounds'' c))"
    by simp
  show ?thesis
  proof (rule disjE[OF stripElement_cases[of k cs st ch]])
    assume "stripElement (Element k cs st ch) = ?e"
    then show ?thesis using e by simp
  next
    assume "\<exists>x. stripElement (Element k cs st ch) = removeNode x ?e"
    then obtain x where "stripElement (Element k cs st ch) = removeNode x ?e" ..
    then show ?thesis
      using querySelectorAll_removeNode[of "''dynamic-backgrounds''" x ?e] e by simp
  qed
qed

lemma strip_kids:
  assumes "\<And>c. c \<in> set ch \<Longrightarrow>
     set (querySelectorAll ''dynamic-backgrounds'' (modify i stripElement c)) \<subseteq>
     set (querySelectorAll ''dynamic-backgrounds'' c) - {i}"
  shows "(\<Union>c\<in>set (map (modify i stripElement) ch). set (querySelectorAll ''dynamic-backgrounds'' c)) \<subseteq>
         (\<Union>c\<in>set ch. set (querySelectorAll ''dynamic-backgrounds'' c)) - {i}"
proof
  fix x assume "x \<in> (\<Union>c\<in>set (map (modify i stripElement) ch). set (querySelectorAll ''dynamic-backgrounds'' c))"
  then obtain c where c: "c \<in> set ch" "x \<in> set (querySelectorAll ''dynamic-backgrounds'' (modify i stripElement c))"
    by auto
  then have "x \<in> set (querySelectorAll ''dynamic-backgrounds'' c) - {i}"
    using assms[of c] by blast
  then show "x \<in> (\<Union>c\<in>set ch. set (querySelectorAll ''dynamic-backgrounds'' c)) - {i}"
    using c(1) by blast
qed

lemma querySelectorAll_strip:
  "set (querySelectorAll ''dynamic-backgrounds'' (modify i stripElement t)) \<subseteq>
   set (querySelectorAll ''dynamic-backgrounds'' t) - {i}"
proof (induction t)
  case (Element k cs st ch)
  let ?Q = "querySelectorAll ''dynamic-backgrounds''"
  let ?ch = "map (modify i stripElement) ch"
  let ?K = "\<Union>c\<in>set ch. set (?Q c)"
  let ?K' = "\<Union>c\<in>set ?ch. set (?Q c)"
  have kids: "?K' \<subseteq> ?K - {i}"
    by (rule strip_kids) (rule Element)
  have old: "set (?Q (Element k cs st ch)) = (if ''dynamic-backgrounds'' \<in> set cs then {k} else {}) \<union> ?K"
    by simp
  show ?case
  proof (cases "i = k")
    case True
    have m: "modify i stripElement (Element k cs st ch) = stripElement (Element k cs st ?ch)"
      using True by (simp add: Let_def del: map_map)
    have "set (?Q (stripElement (Element k cs st ?ch))) \<subseteq> ?K'"
      by (rule querySelectorAll_stripElement)
    then have "set (?Q (modify i stripElement (Element k cs st ch))) \<subseteq> ?K - {i}"
      unfolding m using kids by (rule subset_trans)
    moreover have "?K - {i} \<subseteq> set (?Q (Element k cs st ch)) - {i}"
      unfolding old by blast
    ultimately show ?thesis by (rule subset_trans)
  next
    case False
    have m: "modify i stripElement (Element k cs st ch) = Element k cs st ?ch"
      using False by (simp add: Let_def del: map_map)
    have new: "set (?Q (Element k cs st ?ch)) = (if ''dynamic-backgrounds'' \<in> set cs then {k} else {}) \<union> ?K'"
      by (simp del: map_map)
    show ?thesis
    proof (cases "''dynamic-backgrounds'' \<in> set cs")
      case True
      have "insert k ?K' \<subseteq> insert k ?K - {i}"
        using kids False by blast
      then show ?thesis unfolding m new old using True by simp
    next
      case no: False
      show ?thesis unfolding m new old using no kids by simp
    qed
  qed
qed

lemma querySelectorAll_strip_all:
  "set (querySelectorAll ''dynamic-backgrounds'' (forEach L (\<lambda>el. modify el stripElement) t)) \<subseteq>
   set (querySelectorAll ''dynamic-backgrounds'' t) - set L"
proof (induction L arbitrary: t)
  case Nil
  then show ?case by (simp add: forEach_def)
next
  case (Cons i L)
  have "set (querySelectorAll ''dynamic-backgrounds''
          (forEach L (\<lambda>el. modify el stripElement) (modify i stripElement t))) \<subseteq>
        set (querySelectorAll ''dynamic-backgrounds'' (modify i stripElement t)) - set L"
    by (rule Cons)
  also have "\<dots> \<subseteq> (set (querySelectorAll ''dynamic-backgrounds'' t) - {i}) - set L"
    using querySelectorAll_strip[of i t] by blast
  also have "\<dots> = set (querySelectorAll ''dynamic-backgrounds'' t) - set (i # L)"
    by auto
  finally show ?case by (simp add: forEach_def)
qed

text \<open>After the teardown no element has the marker class, whatever the document was.\<close>

lemma no_marker_after_removeBackgrounds:
  "querySelectorAll ''dynamic-backgrounds'' (removeBackgrounds doc) = []"
  using querySelectorAll_strip_all[of "querySelectorAll ''dynamic-backgrounds'' doc" doc]
  by (simp add: removeBackgrounds_stripElement)

text \<open>
  C5 fails on a tab bar. The load gives the container of the tab headers the overlay 3
  and the tab header inside it the overlay 4. In \<^verbatim>\<open>removeBackgrounds\<close> the container
  comes first; \<^verbatim>\<open>el.querySelector\<close> finds the first overlay below it, which is the
  tab header's, and removes that one; the tab header then finds none. The container's
  own overlay stays in the document. The markers are gone and the observer is
  disconnected.
\<close>

theorem teardown_leaves_an_overlay:
  "querySelectorAll ''dynamic-backgrounds-overlay'' (document tabBarLoaded) = [4, 3]
   \<and> querySelectorAll ''dynamic-backgrounds'' (document (onunload_v3 tabBarLoaded)) = []
   \<and> querySelectorAll ''dynamic-backgrounds-overlay'' (document (onunload_v3 tabBarLoaded)) = [3]
   \<and> observers (onunload_v3 tabBarLoaded) = 0"
  by code_simp

text \<open>On a pane, where the only overlay is the one of the content, the teardown removes it.\<close>

lemma teardown_of_a_pane:
  "querySelectorAll ''dynamic-backgrounds-overlay'' (document paneLoaded) = [3]
   \<and> querySelectorAll ''dynamic-backgrounds'' (document (onunload_v3 paneLoaded)) = []
   \<and> querySelectorAll ''dynamic-backgrounds-overlay'' (document (onunload_v3 paneLoaded)) = []"
  by code_simp

end
